theory Spec2Isabelle
  imports Main "HOL-Library.FSet" "HOL-Library.Multiset"
begin

section \<open>Blog backend: data model\<close>

text \<open>
  The relational store of the content module, as the views in \<^verbatim>\<open>blog/views.py\<close> and the
  serializers in \<^verbatim>\<open>blog/serializers.py\<close> use it. Rows are records, tables are lists of rows
  in store order. Users appear in the content module only through their primary key.
  Counters are Python integers.
\<close>

datatype error =
    NotAuthenticated      \<comment> \<open>HTTP 401\<close>
  | PermissionDenied      \<comment> \<open>HTTP 403\<close>
  | NotFound              \<comment> \<open>HTTP 404\<close>
  | ValidationError       \<comment> \<open>HTTP 400\<close>
  | RecursionError        \<comment> \<open>HTTP 500: the interpreter's recursion limit was reached\<close>
  | MultipleObjectsReturned  \<comment> \<open>HTTP 500: \<^verbatim>\<open>get\<close> found more than one row\<close>
  | DoesNotExist          \<comment> \<open>HTTP 500: a related row is missing\<close>
  | AttributeError        \<comment> \<open>HTTP 500: a method was called on a value that does not have it\<close>
  | IntegrityError        \<comment> \<open>HTTP 500: the store refused a row that breaks a unique constraint\<close>

record post =
  post_id :: nat
  title :: string
  slug :: string
  content :: string
  excerpt :: string
  author :: nat
  status :: string
  views_count :: int
  likes_count :: int

record tag =
  tag_id :: nat
  tag_name :: string
  tag_slug :: string

record comment =
  comment_id :: nat
  comment_post :: nat
  comment_author :: nat
  comment_content :: string
  comment_parent :: "nat option"
  comment_likes_count :: int

text \<open>
  A Like row is the pair (post, user). The model file is not among the sources; the
  spec's data model gives the pair as unique, so the table is a finite set of such
  pairs and \<^verbatim>\<open>get_or_create(post=..., user=...)\<close> finds at most one row. The row's own
  id and timestamp are not read by any view.
  \<open>post_tags\<close> is the table behind the many-to-many field \<^verbatim>\<open>Post.tags\<close>, rows (post, tag).
  \<open>icontains\<close> is the case-insensitive containment test of the database.
\<close>

type_synonym like_row = "nat \<times> nat"

record blog_db =
  posts :: "post list"
  tags :: "tag list"
  post_tags :: "(nat \<times> nat) list"
  comments :: "comment list"
  likes :: "like_row fset"
  icontains :: "string \<Rightarrow> string \<Rightarrow> bool"

text \<open>
  A request carries the authenticated user, if any, and the query parameters the
  views read. A parameter that is absent is \<open>None\<close>; the \<^verbatim>\<open>author\<close> parameter is
  the primary key it denotes.
\<close>

record request =
  user :: "nat option"
  q_status :: "string option"
  q_author :: "nat option"
  q_tag :: "string option"
  q_search :: "string option"

datatype action = List | Retrieve | Like | Trending | MyPosts

text \<open>A request without query parameters, as the operations of the API are called.\<close>

definition api_request :: "nat option \<Rightarrow> request" where
  "api_request caller =
     \<lparr>user = caller, q_status = None, q_author = None, q_tag = None, q_search = None\<rparr>"

text \<open>\<^verbatim>\<open>if value:\<close> on a query parameter: absent and empty are both false.\<close>

definition param :: "string option \<Rightarrow> string option" where
  "param v = (case v of None \<Rightarrow> None | Some s \<Rightarrow> if s = [] then None else Some s)"

section \<open>Strings\<close>

text \<open>
  A string is the list of its characters. A text with characters beyond ASCII is given
  by the bytes of its UTF-8 encoding: distinct texts are distinct lists, and the ASCII
  characters of a text are the elements of its list below 128.

  What the interpreter computes on a string depends on the Unicode tables, which are
  not part of the program: \<^verbatim>\<open>str.strip\<close> (which trims every character of
  \<^verbatim>\<open>str.isspace\<close> at both ends), \<^verbatim>\<open>str.lower\<close> and the normal form NFKC of
  \<^verbatim>\<open>unicodedata.normalize\<close> are parameters of the model. The case-insensitive
  containment test of the lookup \<^verbatim>\<open>__icontains\<close> is made by the database and depends on
  its backend; it is a field of the store.
\<close>

record python_str =
  strip :: "string \<Rightarrow> string"
  lower :: "string \<Rightarrow> string"
  nfkc :: "string \<Rightarrow> string"

section \<open>PostViewSet\<close>

definition tags_of :: "blog_db \<Rightarrow> post \<Rightarrow> tag list" where
  "tags_of s p = filter (\<lambda>t. (post_id p, tag_id t) \<in> set (post_tags s)) (tags s)"

text \<open>
  \<^verbatim>\<open>PostViewSet.get_queryset\<close> (views.py, lines 22 to 56). A queryset is the list of
  its rows. The join on tags that the search makes repeats a post once per matching
  tag; \<^verbatim>\<open>.distinct()\<close> removes the repetitions, so the result of the search step is the
  posts that satisfy the disjunction, each once.
\<close>

definition get_queryset :: "blog_db \<Rightarrow> request \<Rightarrow> action \<Rightarrow> post list" where
  "get_queryset s req act =
     (let queryset = posts s;
          queryset =
            (case param (q_status req) of
               Some status_filter \<Rightarrow> filter (\<lambda>p. status p = status_filter) queryset
             | None \<Rightarrow>
                 if act = List then
                   (case user req of
                      None \<Rightarrow> filter (\<lambda>p. status p = ''published'') queryset
                    | Some u \<Rightarrow>
                        filter (\<lambda>p. status p = ''published'' \<or> author p = u) queryset)
                 else queryset);
          queryset =
            (case q_author req of
               Some author_id \<Rightarrow> filter (\<lambda>p. author p = author_id) queryset
             | None \<Rightarrow> queryset);
          queryset =
            (case param (q_tag req) of
               Some tag_slug' \<Rightarrow>
                 filter (\<lambda>p. \<exists>t \<in> set (tags_of s p). tag_slug t = tag_slug') queryset
             | None \<Rightarrow> queryset);
          queryset =
            (case param (q_search req) of
               Some search \<Rightarrow>
                 remdups (filter (\<lambda>p. icontains s (title p) search
                                    \<or> icontains s (content p) search
                                    \<or> (\<exists>t \<in> set (tags_of s p). icontains s (tag_name t) search))
                            queryset)
             | None \<Rightarrow> queryset)
      in queryset)"

text \<open>
  \<^verbatim>\<open>get_object\<close>: the row of the view's queryset with the primary key of the URL, or
  404.
\<close>

definition get_object :: "blog_db \<Rightarrow> request \<Rightarrow> action \<Rightarrow> nat \<Rightarrow> post option" where
  "get_object s req act pk = find (\<lambda>p. post_id p = pk) (get_queryset s req act)"

text \<open>The row with primary key \<open>pk\<close> as the store holds it (\<^verbatim>\<open>refresh_from_db\<close>).\<close>

definition post_row :: "blog_db \<Rightarrow> nat \<Rightarrow> post option" where
  "post_row s pk = find (\<lambda>p. post_id p = pk) (posts s)"

text \<open>\<^verbatim>\<open>UPDATE post SET ... WHERE id = pk\<close>, the effect of \<^verbatim>\<open>save(update_fields=[...])\<close>.\<close>

definition update_post_row :: "nat \<Rightarrow> (post \<Rightarrow> post) \<Rightarrow> blog_db \<Rightarrow> blog_db" where
  "update_post_row pk f s = s\<lparr>posts := map (\<lambda>p. if post_id p = pk then f p else p) (posts s)\<rparr>"

record like_response =
  resp_status :: string
  resp_likes_count :: int

text \<open>
  \<^verbatim>\<open>PostViewSet.like\<close> (views.py, lines 89 to 106). The action is open to authenticated
  callers only. The unlike branch writes the count computed from the instance read by
  \<^verbatim>\<open>get_object\<close>; the like branch increments the stored count (\<^verbatim>\<open>F('likes_count') + 1\<close>)
  and reads the row back.
\<close>

definition PostViewSet_like ::
  "blog_db \<Rightarrow> request \<Rightarrow> nat \<Rightarrow> (error + like_response) \<times> blog_db" where
  "PostViewSet_like s req pk =
     (case user req of
        None \<Rightarrow> (Inl NotAuthenticated, s)
      | Some u \<Rightarrow>
          (case get_object s req Like pk of
             None \<Rightarrow> (Inl NotFound, s)
           | Some post \<Rightarrow>
               if (post_id post, u) |\<in>| likes s then
                 (let s1 = s\<lparr>likes := likes s |-| {|(post_id post, u)|}\<rparr>;
                      n = max 0 (likes_count post - 1);
                      s2 = update_post_row (post_id post) (\<lambda>p. p\<lparr>likes_count := n\<rparr>) s1
                  in (Inr \<lparr>resp_status = ''unliked'', resp_likes_count = n\<rparr>, s2))
               else
                 (let s1 = s\<lparr>likes := finsert (post_id post, u) (likes s)\<rparr>;
                      s2 = update_post_row (post_id post)
                             (\<lambda>p. p\<lparr>likes_count := likes_count p + 1\<rparr>) s1
                  in (case post_row s2 (post_id post) of
                        None \<Rightarrow> (Inl NotFound, s2)
                      | Some post' \<Rightarrow>
                          (Inr \<lparr>resp_status = ''liked'',
                                resp_likes_count = likes_count post'\<rparr>, s2)))))"

text \<open>The operation \<^verbatim>\<open>like_post(caller, post_id)\<close>: the view on a plain request.\<close>

definition like_post :: "blog_db \<Rightarrow> nat \<Rightarrow> nat \<Rightarrow> (error + like_response) \<times> blog_db" where
  "like_post s u pk = PostViewSet_like s (api_request (Some u)) pk"

text \<open>The Like rows of a post.\<close>

definition like_rows :: "blog_db \<Rightarrow> nat \<Rightarrow> like_row fset" where
  "like_rows s pk = ffilter (\<lambda>l. fst l = pk) (likes s)"

text \<open>A sequence of like calls on one post, one per user of the list, in order.\<close>

fun like_all :: "blog_db \<Rightarrow> nat \<Rightarrow> nat list \<Rightarrow> blog_db" where
  "like_all s pk [] = s"
| "like_all s pk (u # us) = like_all (snd (like_post s u pk)) pk us"

text \<open>
  The rows of the list action (\<^verbatim>\<open>GET /posts\<close>): the view's queryset for the action
  \<^verbatim>\<open>list\<close>. The search and ordering backends and the pagination select and order
  among these rows; they add none.
\<close>

definition list_posts :: "blog_db \<Rightarrow> request \<Rightarrow> post list" where
  "list_posts s req = get_queryset s req List"

text \<open>
  \<^verbatim>\<open>PostViewSet.trending\<close> (views.py, lines 139 to 147): the published rows of the view's
  queryset, annotated with \<^verbatim>\<open>engagement = views_count + likes_count * 2\<close>, ordered by
  \<^verbatim>\<open>-engagement\<close>, the first ten. Rows of equal engagement stay in store order.
\<close>

definition engagement :: "post \<Rightarrow> int" where
  "engagement p = views_count p + likes_count p * 2"

definition PostViewSet_trending :: "blog_db \<Rightarrow> request \<Rightarrow> post list" where
  "PostViewSet_trending s req =
     take 10 (sort_key (\<lambda>p. - engagement p)
                (filter (\<lambda>p. status p = ''published'') (get_queryset s req Trending)))"

text \<open>The HTTP status of the response for each error.\<close>

definition http_status :: "error \<Rightarrow> nat" where
  "http_status e =
     (case e of NotAuthenticated \<Rightarrow> 401 | PermissionDenied \<Rightarrow> 403 | NotFound \<Rightarrow> 404
      | ValidationError \<Rightarrow> 400 | RecursionError \<Rightarrow> 500
      | MultipleObjectsReturned \<Rightarrow> 500 | DoesNotExist \<Rightarrow> 500
      | AttributeError \<Rightarrow> 500 | IntegrityError \<Rightarrow> 500)"

section \<open>CommentSerializer and PostDetailSerializer\<close>

text \<open>
  The output of \<^verbatim>\<open>CommentSerializer\<close> (serializers.py, lines 25 to 60) for one comment:
  its fields and, nested, the output for each of its replies. The fields \<^verbatim>\<open>is_liked\<close>,
  \<^verbatim>\<open>created_at\<close> and \<^verbatim>\<open>updated_at\<close> are left out; the author is given by its key.
\<close>

datatype comment_json = CommentJson
  (c_id: nat) (c_post: nat) (c_author: nat) (c_content: string) (c_parent: "nat option")
  (c_replies: "comment_json list") (c_can_edit: bool) (c_can_delete: bool) (c_likes_count: int)

text \<open>\<^verbatim>\<open>obj.replies\<close>: the comments whose parent is \<open>obj\<close>.\<close>

definition replies_of :: "blog_db \<Rightarrow> comment \<Rightarrow> comment list" where
  "replies_of s obj = filter (\<lambda>r. comment_parent r = Some (comment_id obj)) (comments s)"

text \<open>
  \<^verbatim>\<open>get_replies\<close> serializes the replies with the same serializer, which calls
  \<^verbatim>\<open>get_replies\<close> on each of them: a recursion along the reply relation, with nothing
  that stops it on a cycle. The interpreter bounds the recursion depth; \<open>depth\<close> is the
  number of nested levels it allows, and \<open>None\<close> is the \<^verbatim>\<open>RecursionError\<close> raised when
  they are used up. \<^verbatim>\<open>can_edit\<close> and \<^verbatim>\<open>can_delete\<close> hold when the caller is
  authenticated and is the comment's author.
\<close>

fun serialize_comment :: "nat \<Rightarrow> blog_db \<Rightarrow> nat option \<Rightarrow> comment \<Rightarrow> comment_json option" where
  "serialize_comment 0 s u obj = None"
| "serialize_comment (Suc depth) s u obj =
     (case those (map (serialize_comment depth s u) (replies_of s obj)) of
        None \<Rightarrow> None
      | Some replies \<Rightarrow>
          Some (CommentJson (comment_id obj) (comment_post obj) (comment_author obj)
                  (comment_content obj) (comment_parent obj) replies
                  (u = Some (comment_author obj)) (u = Some (comment_author obj))
                  (comment_likes_count obj)))"

text \<open>
  The output of \<^verbatim>\<open>PostDetailSerializer\<close> (serializers.py, lines 62 to 108): the post row,
  its tags, the number of its comments, whether the caller likes it, and its top-level
  comments (\<^verbatim>\<open>parent=None\<close>), each with its replies nested. The image, the reading
  time, the bookmark flag and the timestamps are left out.
\<close>

record post_detail =
  d_post :: post
  d_tags :: "tag list"
  d_comments_count :: nat
  d_is_liked :: bool
  d_comments :: "comment_json list"

definition top_level_comments :: "blog_db \<Rightarrow> post \<Rightarrow> comment list" where
  "top_level_comments s obj =
     filter (\<lambda>c. comment_post c = post_id obj \<and> comment_parent c = None) (comments s)"

definition serialize_post_detail ::
  "nat \<Rightarrow> blog_db \<Rightarrow> nat option \<Rightarrow> post \<Rightarrow> post_detail option" where
  "serialize_post_detail depth s u obj =
     (case those (map (serialize_comment depth s u) (top_level_comments s obj)) of
        None \<Rightarrow> None
      | Some cs \<Rightarrow>
          Some \<lparr>d_post = obj, d_tags = tags_of s obj,
                d_comments_count = length (filter (\<lambda>c. comment_post c = post_id obj) (comments s)),
                d_is_liked = (case u of None \<Rightarrow> False | Some v \<Rightarrow> (post_id obj, v) |\<in>| likes s),
                d_comments = cs\<rparr>)"

text \<open>
  Modelled from the spec: \<^verbatim>\<open>blog/permissions.py\<close>, which declares the permission class
  \<^verbatim>\<open>IsAuthorOrReadOnly\<close> of the view sets, is not among the sources. The spec says that
  only the author may edit or delete, and that any other authenticated user receives a
  permission error; reading is open. So a safe method passes, and any other method
  passes when the caller is the object's author.
\<close>

definition IsAuthorOrReadOnly :: "bool \<Rightarrow> nat option \<Rightarrow> nat \<Rightarrow> bool" where
  "IsAuthorOrReadOnly safe_method u obj_author = (safe_method \<or> u = Some obj_author)"

text \<open>
  \<^verbatim>\<open>PostViewSet.retrieve\<close> (views.py, lines 68 to 76). Reading is a safe method: both
  permission classes of the view set let every caller through. The view increments the stored counter (\<^verbatim>\<open>F('views_count') + 1\<close>, saved with
  \<^verbatim>\<open>update_fields=['views_count']\<close>), reads the row back and serializes it. The
  increment is stored before the serializer runs.
\<close>

definition PostViewSet_retrieve ::
  "nat \<Rightarrow> blog_db \<Rightarrow> request \<Rightarrow> nat \<Rightarrow> (error + post_detail) \<times> blog_db" where
  "PostViewSet_retrieve depth s req pk =
     (case get_object s req Retrieve pk of
        None \<Rightarrow> (Inl NotFound, s)
      | Some instance \<Rightarrow>
          if \<not> IsAuthorOrReadOnly True (user req) (author instance)
          then (Inl PermissionDenied, s)
          else
            (let s1 = update_post_row (post_id instance)
                        (\<lambda>p. p\<lparr>views_count := views_count p + 1\<rparr>) s
             in (case post_row s1 (post_id instance) of
                   None \<Rightarrow> (Inl NotFound, s1)
                 | Some instance' \<Rightarrow>
                     (case serialize_post_detail depth s1 (user req) instance' of
                        None \<Rightarrow> (Inl RecursionError, s1)
                      | Some data \<Rightarrow> (Inr data, s1)))))"

text \<open>The operation \<^verbatim>\<open>get_post(post_id, caller)\<close>: the view on a plain request.\<close>

definition get_post ::
  "nat \<Rightarrow> blog_db \<Rightarrow> nat \<Rightarrow> nat option \<Rightarrow> (error + post_detail) \<times> blog_db" where
  "get_post depth s pk caller = PostViewSet_retrieve depth s (api_request caller) pk"

section \<open>CommentViewSet\<close>

definition comment_row :: "blog_db \<Rightarrow> nat \<Rightarrow> comment option" where
  "comment_row s pk = find (\<lambda>c. comment_id c = pk) (comments s)"

text \<open>\<^verbatim>\<open>comment.save()\<close>: the row with the instance's key takes the instance's fields.\<close>

definition save_comment :: "comment \<Rightarrow> blog_db \<Rightarrow> blog_db" where
  "save_comment c s =
     s\<lparr>comments := map (\<lambda>r. if comment_id r = comment_id c then c else r) (comments s)\<rparr>"

text \<open>
  The body of a request as the parser hands it to the view (\<^verbatim>\<open>request.data\<close>): a JSON
  value. The members of an object are listed in the order of the text; when a key is
  repeated the parser keeps the last one. The value of a number is not read by the views
  modelled here. A form-encoded body is an object whose values are strings.
\<close>

datatype json =
    JNull
  | JBool bool
  | JNumber
  | JString string
  | JArray "json list"
  | JObject "(string \<times> json) list"

text \<open>
  \<^verbatim>\<open>request.data.get(key, dflt)\<close>: only an object has the method \<^verbatim>\<open>get\<close>; on any other
  value the attribute lookup raises \<^verbatim>\<open>AttributeError\<close>.
\<close>

definition data_get :: "json \<Rightarrow> string \<Rightarrow> json \<Rightarrow> error + json" where
  "data_get data key dflt =
     (case data of
        JObject members \<Rightarrow>
          Inr (case map_of (rev members) key of None \<Rightarrow> dflt | Some v \<Rightarrow> v)
      | _ \<Rightarrow> Inl AttributeError)"

text \<open>
  \<^verbatim>\<open>value.strip()\<close>: only a string has the method \<^verbatim>\<open>strip\<close>; on \<^verbatim>\<open>None\<close>, a boolean, a
  number, a list or a dictionary the attribute lookup raises \<^verbatim>\<open>AttributeError\<close>.
\<close>

definition value_strip :: "python_str \<Rightarrow> json \<Rightarrow> error + string" where
  "value_strip py v = (case v of JString x \<Rightarrow> Inr (strip py x) | _ \<Rightarrow> Inl AttributeError)"

text \<open>
  \<^verbatim>\<open>CommentViewSet.update\<close> (views.py, lines 170 to 193). Writing needs an authenticated
  caller (\<^verbatim>\<open>IsAuthenticatedOrReadOnly\<close>), \<^verbatim>\<open>get_object\<close> answers 404 for an unknown key
  and checks the object permission, then the view checks the author itself, reads
  \<^verbatim>\<open>request.data.get('content', '').strip()\<close>, refuses an empty content, saves and returns
  the serialized comment. The view catches no exception: an \<^verbatim>\<open>AttributeError\<close> ends the
  request before anything is written.
\<close>

definition CommentViewSet_update ::
  "python_str \<Rightarrow> nat \<Rightarrow> blog_db \<Rightarrow> nat option \<Rightarrow> nat \<Rightarrow> json
     \<Rightarrow> (error + comment_json) \<times> blog_db" where
  "CommentViewSet_update py depth s caller pk data =
     (case caller of
        None \<Rightarrow> (Inl NotAuthenticated, s)
      | Some u \<Rightarrow>
          (case comment_row s pk of
             None \<Rightarrow> (Inl NotFound, s)
           | Some comment \<Rightarrow>
               if \<not> IsAuthorOrReadOnly False caller (comment_author comment)
               then (Inl PermissionDenied, s)
               else if comment_author comment \<noteq> u then (Inl PermissionDenied, s)
               else
                 (case data_get data ''content'' (JString '''') of
                    Inl e \<Rightarrow> (Inl e, s)
                  | Inr v \<Rightarrow>
                      (case value_strip py v of
                         Inl e \<Rightarrow> (Inl e, s)
                       | Inr stripped \<Rightarrow>
                           if stripped = '''' then (Inl ValidationError, s)
                           else
                             (let comment' = comment\<lparr>comment_content := stripped\<rparr>;
                                  s1 = save_comment comment' s
                              in (case serialize_comment depth s1 caller comment' of
                                    None \<Rightarrow> (Inl RecursionError, s1)
                                  | Some out \<Rightarrow> (Inr out, s1)))))))"

text \<open>
  Modelled from the spec: \<^verbatim>\<open>blog/models.py\<close>, which declares the foreign key
  \<^verbatim>\<open>Comment.parent\<close> and its deletion rule, is not among the sources. The spec says that
  deleting a comment deletes its entire reply subtree (cascade), as explicit recursive
  delete logic; the view's own comment says that \<^verbatim>\<open>comment.delete()\<close> also deletes the
  replies due to \<^verbatim>\<open>CASCADE\<close>. \<open>collect\<close> gathers the keys to delete as the deletion
  does: it takes a key from the work list, skips it when it is already collected, and
  otherwise collects it and puts the keys of its replies on the work list.
\<close>

function collect :: "comment list \<Rightarrow> nat list \<Rightarrow> nat list \<Rightarrow> nat list" where
  "collect cs [] seen = seen"
| "collect cs (x # todo) seen =
     (if x \<in> set seen then collect cs todo seen
      else collect cs
             (map comment_id (filter (\<lambda>c. comment_parent c = Some x) cs) @ todo) (x # seen))"
  by pat_completeness auto
termination
proof (relation "measures [\<lambda>(cs, todo, seen). card ((set (map comment_id cs) \<union> set todo) - set seen),
                           \<lambda>(cs, todo, seen). length todo]", goal_cases)
  case 1
  show ?case by simp
next
  case (2 cs x todo seen)
  then have "(set (map comment_id cs) \<union> set todo) - set seen
             = (set (map comment_id cs) \<union> set (x # todo)) - set seen" by auto
  then show ?case by simp
next
  case (3 cs x todo seen)
  let ?U = "(set (map comment_id cs) \<union> set (x # todo)) - set seen"
  let ?V = "(set (map comment_id cs)
             \<union> set (map comment_id (filter (\<lambda>c. comment_parent c = Some x) cs) @ todo))
            - set (x # seen)"
  have "?V \<subset> ?U" using 3 by auto
  moreover have "finite ?U" by simp
  ultimately have "card ?V < card ?U" by (rule psubset_card_mono[rotated])
  then show ?case by simp
qed

definition delete_comment :: "comment \<Rightarrow> blog_db \<Rightarrow> blog_db" where
  "delete_comment c s =
     s\<lparr>comments := filter (\<lambda>r. comment_id r \<notin> set (collect (comments s) [comment_id c] []))
                     (comments s)\<rparr>"

text \<open>
  \<^verbatim>\<open>CommentViewSet.destroy\<close> (views.py, lines 199 to 212): the same checks as for an
  update, then \<^verbatim>\<open>comment.delete()\<close> and status 204.
\<close>

definition CommentViewSet_destroy ::
  "blog_db \<Rightarrow> nat option \<Rightarrow> nat \<Rightarrow> (error + unit) \<times> blog_db" where
  "CommentViewSet_destroy s caller pk =
     (case caller of
        None \<Rightarrow> (Inl NotAuthenticated, s)
      | Some u \<Rightarrow>
          (case comment_row s pk of
             None \<Rightarrow> (Inl NotFound, s)
           | Some comment \<Rightarrow>
               if \<not> IsAuthorOrReadOnly False caller (comment_author comment)
               then (Inl PermissionDenied, s)
               else if comment_author comment \<noteq> u then (Inl PermissionDenied, s)
               else (Inr (), delete_comment comment s)))"

section \<open>PostCreateUpdateSerializer\<close>

text \<open>
  The validated data of \<^verbatim>\<open>PostCreateUpdateSerializer\<close> (serializers.py, lines 110 to
  124): each writable field is present or absent (\<open>None\<close>). \<^verbatim>\<open>tags\<close> is the list of tag
  names. The image field is left out.
\<close>

record post_data =
  v_title :: "string option"
  v_content :: "string option"
  v_excerpt :: "string option"
  v_status :: "string option"
  v_tags :: "string list option"

text \<open>
  \<^verbatim>\<open>Tag.objects.get_or_create(name=...)\<close>: the tag with this name when there is exactly
  one, \<^verbatim>\<open>MultipleObjectsReturned\<close> when there are several, and a new tag when there is
  none. A new tag takes the next key.

  Modelled from the spec: the Tag model (\<^verbatim>\<open>blog/models.py\<close>) is not among the sources.
  The spec's data model gives a tag a name and a unique slug. The derivation of the slug
  of a new tag from its name is the parameter \<open>slugify\<close>; the store refuses a new tag whose
  slug is the slug of a tag it holds, and \<^verbatim>\<open>get_or_create\<close>, which then still finds no
  tag of that name, raises the \<^verbatim>\<open>IntegrityError\<close> again.
\<close>

definition get_or_create_tag ::
  "(string \<Rightarrow> string) \<Rightarrow> string \<Rightarrow> blog_db \<Rightarrow> error + (tag \<times> bool \<times> blog_db)" where
  "get_or_create_tag slugify name s =
     (case filter (\<lambda>t. tag_name t = name) (tags s) of
        [] \<Rightarrow>
          (let t = \<lparr>tag_id = Suc (fold max (map tag_id (tags s)) 0), tag_name = name,
                    tag_slug = slugify name\<rparr>
           in if \<exists>r \<in> set (tags s). tag_slug r = tag_slug t then Inl IntegrityError
              else Inr (t, True, s\<lparr>tags := tags s @ [t]\<rparr>))
      | [t] \<Rightarrow> Inr (t, False, s)
      | _ \<Rightarrow> Inl MultipleObjectsReturned)"

text \<open>\<^verbatim>\<open>instance.tags.clear()\<close> and \<^verbatim>\<open>instance.tags.add(tag)\<close> on the table behind the field.\<close>

definition tags_clear :: "nat \<Rightarrow> blog_db \<Rightarrow> blog_db" where
  "tags_clear pid s = s\<lparr>post_tags := filter (\<lambda>r. fst r \<noteq> pid) (post_tags s)\<rparr>"

definition tags_add :: "nat \<Rightarrow> tag \<Rightarrow> blog_db \<Rightarrow> blog_db" where
  "tags_add pid t s =
     (if (pid, tag_id t) \<in> set (post_tags s) then s
      else s\<lparr>post_tags := post_tags s @ [(pid, tag_id t)]\<rparr>)"

text \<open>
  The loop of \<^verbatim>\<open>update\<close> (lines 148 to 150): each name is trimmed and lower-cased, then
  looked up or created, and the tag is added to the post. An exception ends the loop
  and leaves what was done so far.
\<close>

fun add_tag_names ::
  "python_str \<Rightarrow> (string \<Rightarrow> string) \<Rightarrow> nat \<Rightarrow> string list \<Rightarrow> blog_db \<Rightarrow> error option \<times> blog_db" where
  "add_tag_names py slugify pid [] s = (None, s)"
| "add_tag_names py slugify pid (name # tags_data) s =
     (case get_or_create_tag slugify (lower py (strip py name)) s of
        Inl e \<Rightarrow> (Some e, s)
      | Inr (t, created, s1) \<Rightarrow> add_tag_names py slugify pid tags_data (tags_add pid t s1))"

text \<open>
  \<^verbatim>\<open>instance.save()\<close>: the row with the instance's key takes the instance's fields.
  (The Post model is not among the sources; what its \<^verbatim>\<open>save\<close> may add to the row, such
  as a slug, does not touch the tags.)
\<close>

definition save_post :: "post \<Rightarrow> blog_db \<Rightarrow> blog_db" where
  "save_post p s = s\<lparr>posts := map (\<lambda>r. if post_id r = post_id p then p else r) (posts s)\<rparr>"

text \<open>\<^verbatim>\<open>setattr(instance, attr, value)\<close> for each field present in the validated data.\<close>

definition set_fields :: "post_data \<Rightarrow> post \<Rightarrow> post" where
  "set_fields vd p =
     p\<lparr>title := (case v_title vd of None \<Rightarrow> title p | Some v \<Rightarrow> v),
       content := (case v_content vd of None \<Rightarrow> content p | Some v \<Rightarrow> v),
       excerpt := (case v_excerpt vd of None \<Rightarrow> excerpt p | Some v \<Rightarrow> v),
       status := (case v_status vd of None \<Rightarrow> status p | Some v \<Rightarrow> v)\<rparr>"

text \<open>
  \<^verbatim>\<open>PostCreateUpdateSerializer.update\<close> (serializers.py, lines 137 to 152): the fields
  are set and saved; when \<^verbatim>\<open>tags\<close> is present, the post's tags are cleared and the
  named tags added.
\<close>

definition PostCreateUpdateSerializer_update ::
  "python_str \<Rightarrow> (string \<Rightarrow> string) \<Rightarrow> blog_db \<Rightarrow> post \<Rightarrow> post_data \<Rightarrow> (error + post) \<times> blog_db" where
  "PostCreateUpdateSerializer_update py slugify s instance validated_data =
     (let instance' = set_fields validated_data instance;
          s1 = save_post instance' s
      in (case v_tags validated_data of
            None \<Rightarrow> (Inr instance', s1)
          | Some tags_data \<Rightarrow>
              (case add_tag_names py slugify (post_id instance') tags_data
                      (tags_clear (post_id instance') s1) of
                 (Some e, s2) \<Rightarrow> (Inl e, s2)
               | (None, s2) \<Rightarrow> (Inr instance', s2))))"

section \<open>Accounts: data model\<close>

text \<open>
  The identity module has its own tables. A user is a row of the framework's \<^verbatim>\<open>User\<close>
  model: key, username, email and the password hash.
\<close>

record user_row =
  user_id :: nat
  username :: string
  email :: string
  password :: string

text \<open>
  The profile of a user, as the serializers of \<^verbatim>\<open>accounts/serializers.py\<close> use it: the
  user it belongs to, \<^verbatim>\<open>bio\<close> and \<^verbatim>\<open>profile_picture\<close> (a file reference, or none).
\<close>

record user_profile =
  profile_user :: nat
  bio :: string
  profile_picture :: "string option"

record accounts_db =
  users :: "user_row list"
  profiles :: "user_profile list"

text \<open>
  What the framework and the settings decide, as parameters: the format checks of the
  username and the email field, the password policy (\<^verbatim>\<open>validate_password\<close>) and the
  password hasher.
\<close>

record auth_config =
  valid_username :: "string \<Rightarrow> bool"
  valid_email :: "string \<Rightarrow> bool"
  validate_password :: "string \<Rightarrow> bool"
  make_password :: "string \<Rightarrow> string"

section \<open>RegisterSerializer\<close>

text \<open>
  The four fields of \<^verbatim>\<open>RegisterSerializer\<close> (serializers.py, lines 8 to 22), all
  required, with the values that the serializer fields hand to \<^verbatim>\<open>validate\<close>.
\<close>

record register_data =
  r_username :: string
  r_password :: string
  r_password2 :: string
  r_email :: string

text \<open>
  The validation of the fields, which runs before \<^verbatim>\<open>validate\<close> and collects the names
  of the fields in error: no field may be blank; the username must be well-formed and
  unique (the \<^verbatim>\<open>User\<close> model declares it unique); the password must pass
  \<^verbatim>\<open>validate_password\<close>; the email must be well-formed and not in use
  (\<^verbatim>\<open>UniqueValidator(queryset=User.objects.all())\<close>). Both uniqueness checks compare
  the value as it was submitted with the stored values.
\<close>

definition field_errors :: "auth_config \<Rightarrow> accounts_db \<Rightarrow> register_data \<Rightarrow> string list" where
  "field_errors cfg s data =
     (if r_username data = '''' \<or> \<not> valid_username cfg (r_username data)
         \<or> (\<exists>u \<in> set (users s). username u = r_username data)
      then [''username''] else [])
     @ (if r_password data = '''' \<or> \<not> validate_password cfg (r_password data)
        then [''password''] else [])
     @ (if r_password2 data = '''' then [''password2''] else [])
     @ (if r_email data = '''' \<or> \<not> valid_email cfg (r_email data)
           \<or> (\<exists>u \<in> set (users s). email u = r_email data)
        then [''email''] else [])"

text \<open>\<^verbatim>\<open>RegisterSerializer.validate\<close> (lines 24 to 27).\<close>

definition RegisterSerializer_validate :: "register_data \<Rightarrow> error + register_data" where
  "RegisterSerializer_validate attrs =
     (if r_password attrs \<noteq> r_password2 attrs then Inl ValidationError else Inr attrs)"

text \<open>
  Modelled from the spec: \<^verbatim>\<open>accounts/models.py\<close>, which declares \<^verbatim>\<open>UserProfile\<close> and
  creates the profile of a new user, is not among the sources. The spec says that a
  profile is created alongside its user.
\<close>

definition create_user_profile :: "user_row \<Rightarrow> accounts_db \<Rightarrow> accounts_db" where
  "create_user_profile u s =
     s\<lparr>profiles := profiles s
          @ [\<lparr>profile_user = user_id u, bio = '''', profile_picture = None\<rparr>]\<rparr>"

text \<open>
  \<^verbatim>\<open>UserManager.normalize_email\<close> of the framework, which \<^verbatim>\<open>create_user\<close> applies to the
  email: the trimmed address is split at its last \<^verbatim>\<open>@\<close> and the domain part is
  lower-cased; an address without \<^verbatim>\<open>@\<close> is left as it is.
\<close>

definition normalize_email :: "python_str \<Rightarrow> string \<Rightarrow> string" where
  "normalize_email py address =
     (let trimmed = strip py address
      in if CHR ''@'' \<in> set trimmed then
           (let domain_part = rev (takeWhile (\<lambda>c. c \<noteq> CHR ''@'') (rev trimmed));
                email_name = rev (tl (dropWhile (\<lambda>c. c \<noteq> CHR ''@'') (rev trimmed)))
            in email_name @ ''@'' @ lower py domain_part)
         else address)"

text \<open>
  \<^verbatim>\<open>RegisterSerializer.create\<close> (lines 29 to 36): \<^verbatim>\<open>create_user\<close> with the username and
  the email, then \<^verbatim>\<open>set_password\<close> and \<^verbatim>\<open>save\<close>; the row that results holds the hash
  of the password. \<^verbatim>\<open>create_user\<close> stores the normalized email and the username in
  normal form NFKC (\<^verbatim>\<open>normalize_username\<close>); the \<^verbatim>\<open>User\<close> table holds a username once,
  and refuses the row with an \<^verbatim>\<open>IntegrityError\<close> when the stored form of the username is
  in use. The new user takes the next key.
\<close>

definition RegisterSerializer_create ::
  "python_str \<Rightarrow> auth_config \<Rightarrow> accounts_db \<Rightarrow> register_data
     \<Rightarrow> error + user_row \<times> accounts_db" where
  "RegisterSerializer_create py cfg s validated_data =
     (let u = \<lparr>user_id = Suc (fold max (map user_id (users s)) 0),
                username = nfkc py (r_username validated_data),
                email = normalize_email py (r_email validated_data),
                password = make_password cfg (r_password validated_data)\<rparr>
      in if \<exists>r \<in> set (users s). username r = username u then Inl IntegrityError
         else Inr (u, create_user_profile u (s\<lparr>users := users s @ [u]\<rparr>)))"

text \<open>
  \<^verbatim>\<open>serializer.data\<close>: the fields of \<^verbatim>\<open>Meta.fields\<close> that are not write-only, each with
  its value on the user.
\<close>

definition RegisterSerializer_fields :: "string list" where
  "RegisterSerializer_fields = [''username'', ''password'', ''password2'', ''email'']"

definition write_only :: "string \<Rightarrow> bool" where
  "write_only f = (f = ''password'' \<or> f = ''password2'')"

definition field_value :: "user_row \<Rightarrow> string \<Rightarrow> string" where
  "field_value u f =
     (if f = ''username'' then username u
      else if f = ''email'' then email u
      else if f = ''password'' then password u
      else '''')"

definition to_representation :: "user_row \<Rightarrow> (string \<times> string) list" where
  "to_representation u =
     map (\<lambda>f. (f, field_value u f)) (filter (\<lambda>f. \<not> write_only f) RegisterSerializer_fields)"

text \<open>
  \<^verbatim>\<open>RegisterView\<close> (views.py, lines 13 to 16), a \<^verbatim>\<open>CreateAPIView\<close>, open to every
  caller: validate the fields, then the object; on an error answer 400 and write
  nothing; otherwise create the user and answer 201 with \<^verbatim>\<open>serializer.data\<close>, the
  representation of the created user. An exception of \<^verbatim>\<open>create\<close> is not caught.
\<close>

definition register ::
  "python_str \<Rightarrow> auth_config \<Rightarrow> accounts_db \<Rightarrow> register_data
     \<Rightarrow> (error + (string \<times> string) list) \<times> accounts_db" where
  "register py cfg s data =
     (if field_errors cfg s data \<noteq> [] then (Inl ValidationError, s)
      else
        (case RegisterSerializer_validate data of
           Inl e \<Rightarrow> (Inl e, s)
         | Inr attrs \<Rightarrow>
             (case RegisterSerializer_create py cfg s attrs of
                Inl e \<Rightarrow> (Inl e, s)
              | Inr (u, s1) \<Rightarrow> (Inr (to_representation u), s1))))"

section \<open>UpdateUserProfileSerializer\<close>

text \<open>
  The validated data of \<^verbatim>\<open>UpdateUserProfileSerializer\<close> (serializers.py, lines 46 to
  51): each field is present or absent (\<open>None\<close>); a picture that is present may be
  empty.
\<close>

record profile_data =
  p_username :: "string option"
  p_bio :: "string option"
  p_profile_picture :: "string option option"

record profile_response =
  out_username :: string
  out_bio :: string
  out_profile_picture :: "string option"

text \<open>\<^verbatim>\<open>user.save()\<close> and \<^verbatim>\<open>instance.save()\<close>.\<close>

definition save_user :: "user_row \<Rightarrow> accounts_db \<Rightarrow> accounts_db" where
  "save_user u s = s\<lparr>users := map (\<lambda>r. if user_id r = user_id u then u else r) (users s)\<rparr>"

definition save_profile :: "user_profile \<Rightarrow> accounts_db \<Rightarrow> accounts_db" where
  "save_profile p s =
     s\<lparr>profiles := map (\<lambda>r. if profile_user r = profile_user p then p else r) (profiles s)\<rparr>"

text \<open>
  \<^verbatim>\<open>UpdateUserProfileSerializer.update\<close> (lines 53 to 72). \<open>u\<close> is \<^verbatim>\<open>instance.user\<close>. The
  username is looked at only when it is given, non-empty and different from the
  user's own; then a username in use raises the validation error, before anything is
  written.
\<close>

definition UpdateUserProfileSerializer_update ::
  "accounts_db \<Rightarrow> user_row \<Rightarrow> user_profile \<Rightarrow> profile_data
     \<Rightarrow> (error + user_row \<times> user_profile) \<times> accounts_db" where
  "UpdateUserProfileSerializer_update s u instance validated_data =
     (case (case p_username validated_data of
              None \<Rightarrow> Inr (u, s)
            | Some name \<Rightarrow>
                if name \<noteq> '''' \<and> name \<noteq> username u then
                  if \<exists>r \<in> set (users s). username r = name then Inl ValidationError
                  else Inr (u\<lparr>username := name\<rparr>, save_user (u\<lparr>username := name\<rparr>) s)
                else Inr (u, s)) of
        Inl e \<Rightarrow> (Inl e, s)
      | Inr (u', s1) \<Rightarrow>
          (let instance1 = instance\<lparr>bio := (case p_bio validated_data of
                                               None \<Rightarrow> bio instance | Some b \<Rightarrow> b)\<rparr>;
               instance2 = (case p_profile_picture validated_data of
                              None \<Rightarrow> instance1
                            | Some pic \<Rightarrow> instance1\<lparr>profile_picture := pic\<rparr>)
           in (Inr (u', instance2), save_profile instance2 s1)))"

text \<open>
  \<^verbatim>\<open>UpdateUserProfileView\<close> (views.py, lines 40 to 45): for authenticated callers only;
  the object is \<^verbatim>\<open>request.user.profile\<close>; the answer is the serialized profile.
\<close>

definition update_profile ::
  "accounts_db \<Rightarrow> nat option \<Rightarrow> profile_data \<Rightarrow> (error + profile_response) \<times> accounts_db" where
  "update_profile s caller validated_data =
     (case caller of
        None \<Rightarrow> (Inl NotAuthenticated, s)
      | Some uid \<Rightarrow>
          (case find (\<lambda>r. user_id r = uid) (users s) of
             None \<Rightarrow> (Inl NotAuthenticated, s)
           | Some u \<Rightarrow>
               (case find (\<lambda>p. profile_user p = uid) (profiles s) of
                  None \<Rightarrow> (Inl DoesNotExist, s)
                | Some instance \<Rightarrow>
                    (case UpdateUserProfileSerializer_update s u instance validated_data of
                       (Inl e, s1) \<Rightarrow> (Inl e, s1)
                     | (Inr (u', instance'), s1) \<Rightarrow>
                         (Inr \<lparr>out_username = username u', out_bio = bio instance',
                               out_profile_picture = profile_picture instance'\<rparr>, s1)))))"

section \<open>Specification predicates\<close>

text \<open>
  The reply relation of a comment table: the pairs (reply, parent) of keys. Its
  reflexive transitive closure relates every comment of a reply subtree to the root of
  the subtree.
\<close>

definition reply_rel :: "comment list \<Rightarrow> (nat \<times> nat) set" where
  "reply_rel cs = {(comment_id c, q) | c q. c \<in> set cs \<and> comment_parent c = Some q}"

text \<open>
  A serialized comment carries the reply subtree of the store: at every node, the
  nested replies are the comments whose parent is the node, in store order.
\<close>

fun reply_tree :: "blog_db \<Rightarrow> comment_json \<Rightarrow> bool" where
  "reply_tree s (CommentJson i p a c q replies e d l) =
     (map c_id replies
        = map comment_id (filter (\<lambda>r. comment_parent r = Some i) (comments s))
      \<and> (\<forall>r \<in> set replies. reply_tree s r))"

text \<open>
  The comment tables that the API builds: a reply is created after its parent, so the
  parent's key is the smaller one; and all keys are below \<open>limit\<close>, so that no reply chain
  is longer than \<open>limit\<close>.
\<close>

definition comments_ok :: "nat \<Rightarrow> blog_db \<Rightarrow> bool" where
  "comments_ok limit s =
     (\<forall>c \<in> set (comments s).
        comment_id c < limit
        \<and> (case comment_parent c of None \<Rightarrow> True | Some q \<Rightarrow> q < comment_id c))"

text \<open>The Tag table has unique keys, unique names and unique slugs.\<close>

definition tags_ok :: "blog_db \<Rightarrow> bool" where
  "tags_ok s =
     (distinct (map tag_id (tags s)) \<and> distinct (map tag_name (tags s))
      \<and> distinct (map tag_slug (tags s)))"


section \<open>Example stores\<close>

text \<open>
  The parameters on ASCII strings, for the examples. On a string of ASCII characters
  \<^verbatim>\<open>str.lower\<close> lower-cases the letters A to Z, \<^verbatim>\<open>str.strip\<close> trims the ten ASCII
  characters of \<^verbatim>\<open>str.isspace\<close>, and the normal form NFKC is the string itself. The
  example stores compare strings as a database does that folds the ASCII letters.
\<close>

definition ascii_lower_char :: "char \<Rightarrow> char" where
  "ascii_lower_char c =
     (case map_of (zip ''ABCDEFGHIJKLMNOPQRSTUVWXYZ'' ''abcdefghijklmnopqrstuvwxyz'') c of
        Some l \<Rightarrow> l
      | None \<Rightarrow> c)"

definition ascii_lower :: "string \<Rightarrow> string" where
  "ascii_lower s = map ascii_lower_char s"

definition ascii_isspace :: "char \<Rightarrow> bool" where
  "ascii_isspace c =
     (c \<in> set [CHR 0x09, CHR 0x0A, CHR 0x0B, CHR 0x0C, CHR 0x0D,
               CHR 0x1C, CHR 0x1D, CHR 0x1E, CHR 0x1F, CHR 0x20])"

definition ascii_strip :: "string \<Rightarrow> string" where
  "ascii_strip s = rev (dropWhile ascii_isspace (rev (dropWhile ascii_isspace s)))"

definition ascii_str :: python_str where
  "ascii_str = \<lparr>strip = ascii_strip, lower = ascii_lower, nfkc = (\<lambda>s. s)\<rparr>"

fun startswith :: "string \<Rightarrow> string \<Rightarrow> bool" where
  "startswith hay [] = True"
| "startswith [] (n # ns) = False"
| "startswith (h # hs) (n # ns) = (h = n \<and> startswith hs ns)"

fun contains :: "string \<Rightarrow> string \<Rightarrow> bool" where
  "contains [] needle = (needle = [])"
| "contains (h # hs) needle = (startswith (h # hs) needle \<or> contains hs needle)"

definition ascii_icontains :: "string \<Rightarrow> string \<Rightarrow> bool" where
  "ascii_icontains hay needle = contains (ascii_lower hay) (ascii_lower needle)"

definition ex_post :: post where
  "ex_post = \<lparr>post_id = 1, title = ''Hello'', slug = ''hello'', content = ''First post'',
     excerpt = ''First'', author = 7, status = ''published'', views_count = 5, likes_count = 2\<rparr>"

definition ex_db :: blog_db where
  "ex_db = \<lparr>posts = [ex_post], tags = [], post_tags = [], comments = [],
     likes = {|(1, 7), (1, 8)|},
     icontains = ascii_icontains\<rparr>"

definition draft_post :: post where
  "draft_post = \<lparr>post_id = 2, title = ''Notes'', slug = ''notes'', content = ''Unfinished'',
     excerpt = '''', author = 7, status = ''draft'', views_count = 0, likes_count = 0\<rparr>"

definition draft_db :: blog_db where
  "draft_db = \<lparr>posts = [ex_post, draft_post], tags = [], post_tags = [], comments = [],
     likes = {||},
     icontains = ascii_icontains\<rparr>"

definition draft_request :: request where
  "draft_request = (api_request None)\<lparr>q_status := Some ''draft''\<rparr>"

definition numbered_post :: "nat \<Rightarrow> post" where
  "numbered_post n = \<lparr>post_id = n, title = ''Post'', slug = ''post'', content = ''Text'',
     excerpt = '''', author = 7, status = (if n = 5 then ''draft'' else ''published''),
     views_count = int n, likes_count = (if n = 1 then 6 else 0)\<rparr>"

definition many_db :: blog_db where
  "many_db = \<lparr>posts = map numbered_post [1, 2, 3, 4, 5, 6, 7, 8, 9, 10, 11, 12], tags = [],
     post_tags = [], comments = [], likes = {||},
     icontains = ascii_icontains\<rparr>"

definition c1 :: comment where
  "c1 = \<lparr>comment_id = 11, comment_post = 1, comment_author = 7, comment_content = ''First'',
     comment_parent = None, comment_likes_count = 0\<rparr>"

definition c2 :: comment where
  "c2 = \<lparr>comment_id = 12, comment_post = 1, comment_author = 8, comment_content = ''Reply'',
     comment_parent = Some 11, comment_likes_count = 0\<rparr>"

definition c3 :: comment where
  "c3 = \<lparr>comment_id = 13, comment_post = 1, comment_author = 7, comment_content = ''Thanks'',
     comment_parent = Some 12, comment_likes_count = 0\<rparr>"

definition c4 :: comment where
  "c4 = \<lparr>comment_id = 14, comment_post = 1, comment_author = 8, comment_content = ''Other'',
     comment_parent = None, comment_likes_count = 0\<rparr>"

definition thread_db :: blog_db where
  "thread_db = \<lparr>posts = [ex_post], tags = [], post_tags = [], comments = [c1, c2, c3, c4],
     likes = {||},
     icontains = ascii_icontains\<rparr>"

definition tag_python :: tag where
  "tag_python = \<lparr>tag_id = 21, tag_name = ''python'', tag_slug = ''python''\<rparr>"

definition tag_django :: tag where
  "tag_django = \<lparr>tag_id = 22, tag_name = ''django'', tag_slug = ''django''\<rparr>"

definition tagged_db :: blog_db where
  "tagged_db = \<lparr>posts = [ex_post], tags = [tag_python, tag_django],
     post_tags = [(1, 21), (1, 22)], comments = [], likes = {||},
     icontains = ascii_icontains\<rparr>"

definition new_tags :: post_data where
  "new_tags = \<lparr>v_title = None, v_content = None, v_excerpt = None, v_status = None,
     v_tags = Some [''  Django '', ''REST'']\<rparr>"

definition example_config :: auth_config where
  "example_config = \<lparr>valid_username = (\<lambda>n. True), valid_email = (\<lambda>e. CHR ''@'' \<in> set e),
     validate_password = (\<lambda>p. 8 \<le> length p), make_password = (\<lambda>p. ''hash:'' @ p)\<rparr>"

definition alice :: user_row where
  "alice = \<lparr>user_id = 31, username = ''alice'', email = ''a@x.com'', password = ''hash:Aa12345!''\<rparr>"

definition bob :: user_row where
  "bob = \<lparr>user_id = 32, username = ''bob'', email = ''b@x.com'', password = ''hash:Bb12345!''\<rparr>"

definition alice_profile :: user_profile where
  "alice_profile = \<lparr>profile_user = 31, bio = ''Hi'', profile_picture = None\<rparr>"

definition bob_profile :: user_profile where
  "bob_profile = \<lparr>profile_user = 32, bio = '''', profile_picture = None\<rparr>"

definition accounts :: accounts_db where
  "accounts = \<lparr>users = [alice, bob], profiles = [alice_profile, bob_profile]\<rparr>"

definition empty_accounts :: accounts_db where
  "empty_accounts = \<lparr>users = [], profiles = []\<rparr>"

definition alice_data :: register_data where
  "alice_data = \<lparr>r_username = ''alice'', r_password = ''Aa12345!'', r_password2 = ''Aa12345!'',
     r_email = ''a@x.com''\<rparr>"

definition carol_data :: register_data where
  "carol_data = \<lparr>r_username = ''carol'', r_password = ''Cc12345!'', r_password2 = ''Cc12345!'',
     r_email = ''a@x.com''\<rparr>"

definition dave_data :: register_data where
  "dave_data = \<lparr>r_username = ''dave'', r_password = ''Dd12345!'', r_password2 = ''Dd12345?'',
     r_email = ''d@x.com''\<rparr>"

definition eve_data :: register_data where
  "eve_data = \<lparr>r_username = ''eve'', r_password = ''Ee12345!'', r_password2 = ''Ee12345!'',
     r_email = ''a@X.COM''\<rparr>"

definition same_name :: profile_data where
  "same_name = \<lparr>p_username = Some ''alice'', p_bio = Some ''Hello'', p_profile_picture = None\<rparr>"

definition taken_name :: profile_data where
  "taken_name = \<lparr>p_username = Some ''bob'', p_bio = None, p_profile_picture = None\<rparr>"

section \<open>Verified properties\<close>

subsection \<open>Store lemmas\<close>

lemma get_queryset_api: "act \<noteq> List \<Longrightarrow> get_queryset s (api_request c) act = posts s"
  by (simp add: get_queryset_def api_request_def param_def)

lemma get_object_api: "act \<noteq> List \<Longrightarrow> get_object s (api_request c) act pk = post_row s pk"
  by (simp add: get_object_def post_row_def get_queryset_api)

lemma user_api_request: "user (api_request c) = c"
  by (simp add: api_request_def)

lemma post_row_id: "post_row s pk = Some p \<Longrightarrow> post_id p = pk"
  by (auto simp: post_row_def find_Some_iff)

lemma find_map_update:
  assumes "\<And>p. post_id (f p) = post_id p"
  shows "find (\<lambda>p. post_id p = pk) (map (\<lambda>p. if post_id p = pk' then f p else p) xs)
     = (if pk = pk' then map_option f (find (\<lambda>p. post_id p = pk) xs)
        else find (\<lambda>p. post_id p = pk) xs)"
  using assms by (induction xs) auto

lemma post_row_update:
  assumes "\<And>p. post_id (f p) = post_id p"
  shows "post_row (update_post_row pk' f s) pk
     = (if pk = pk' then map_option f (post_row s pk) else post_row s pk)"
  using assms by (simp add: post_row_def update_post_row_def find_map_update)

lemma likes_update_post [simp]: "likes (update_post_row pk f s) = likes s"
  by (simp add: update_post_row_def)

lemma post_row_likes_upd [simp]: "post_row (s\<lparr>likes := L\<rparr>) pk = post_row s pk"
  by (simp add: post_row_def)

lemma like_post_liked:
  assumes "post_row s pk = Some p" "(pk, u) |\<notin>| likes s"
  shows "fst (like_post s u pk) = Inr \<lparr>resp_status = ''liked'', resp_likes_count = likes_count p + 1\<rparr>"
    and "likes (snd (like_post s u pk)) = finsert (pk, u) (likes s)"
    and "post_row (snd (like_post s u pk)) pk = Some (p\<lparr>likes_count := likes_count p + 1\<rparr>)"
  using assms post_row_id[OF assms(1)]
  by (simp_all add: like_post_def PostViewSet_like_def get_object_api user_api_request
        post_row_update Let_def)

lemma like_post_unliked:
  assumes "post_row s pk = Some p" "(pk, u) |\<in>| likes s"
  shows "fst (like_post s u pk) = Inr \<lparr>resp_status = ''unliked'', resp_likes_count = max 0 (likes_count p - 1)\<rparr>"
    and "likes (snd (like_post s u pk)) = likes s |-| {|(pk, u)|}"
    and "post_row (snd (like_post s u pk)) pk = Some (p\<lparr>likes_count := max 0 (likes_count p - 1)\<rparr>)"
  using assms post_row_id[OF assms(1)]
  by (simp_all add: like_post_def PostViewSet_like_def get_object_api user_api_request
        post_row_update Let_def)

lemma ffilter_finsert_if:
  "ffilter P (finsert a A) = (if P a then finsert a (ffilter P A) else ffilter P A)"
  by (rule fset_eqI) auto

lemma ffilter_fempty: "ffilter P {||} = {||}"
  by (rule fset_eqI) simp

lemma ffilter_fst_finsert:
  "ffilter (\<lambda>l. fst l = pk) (finsert (pk, u) L) = finsert (pk, u) (ffilter (\<lambda>l. fst l = pk) L)"
  by (rule fset_eqI) auto

lemma ffilter_fst_fminus:
  "ffilter (\<lambda>l. fst l = pk) (L |-| {|(pk, u)|}) = ffilter (\<lambda>l. fst l = pk) L |-| {|(pk, u)|}"
  by (rule fset_eqI) auto

lemma like_post_invariant:
  assumes "post_row s pk = Some p" "likes_count p = int (fcard (like_rows s pk))"
  shows "\<exists>p'. post_row (snd (like_post s u pk)) pk = Some p'
             \<and> likes_count p' = int (fcard (like_rows (snd (like_post s u pk)) pk))"
proof (cases "(pk, u) |\<in>| likes s")
  case True
  then have m: "(pk, u) |\<in>| like_rows s pk" by (simp add: like_rows_def)
  have "like_rows (snd (like_post s u pk)) pk = like_rows s pk |-| {|(pk, u)|}"
    by (simp only: like_rows_def like_post_unliked(2)[OF assms(1) True] ffilter_fst_fminus)
  then have c: "Suc (fcard (like_rows (snd (like_post s u pk)) pk)) = fcard (like_rows s pk)"
    using fcard_Suc_fminus1[OF m] by simp
  have "likes_count p = int (fcard (like_rows (snd (like_post s u pk)) pk)) + 1"
    unfolding assms(2) c[symmetric] by simp
  then have "max 0 (likes_count p - 1) = int (fcard (like_rows (snd (like_post s u pk)) pk))"
    by simp
  then show ?thesis
    by (simp add: like_post_unliked(3)[OF assms(1) True])
next
  case False
  then have m: "(pk, u) |\<notin>| like_rows s pk" by (simp add: like_rows_def)
  have "like_rows (snd (like_post s u pk)) pk = finsert (pk, u) (like_rows s pk)"
    by (simp only: like_rows_def like_post_liked(2)[OF assms(1) False] ffilter_fst_finsert)
  then have c: "fcard (like_rows (snd (like_post s u pk)) pk) = Suc (fcard (like_rows s pk))"
    using m by (simp add: fcard_finsert_disjoint)
  show ?thesis
    by (simp add: like_post_liked(3)[OF assms(1) False] c assms(2))
qed

lemma like_all_invariant:
  "post_row s pk = Some p \<Longrightarrow> likes_count p = int (fcard (like_rows s pk)) \<Longrightarrow>
   \<exists>p'. post_row (like_all s pk us) pk = Some p'
       \<and> likes_count p' = int (fcard (like_rows (like_all s pk us) pk))"
proof (induction us arbitrary: s p)
  case Nil
  then show ?case by simp
next
  case (Cons u us)
  from like_post_invariant[OF Cons.prems, of u] obtain p1 where
    "post_row (snd (like_post s u pk)) pk = Some p1"
    "likes_count p1 = int (fcard (like_rows (snd (like_post s u pk)) pk))" by blast
  from Cons.IH[OF this] show ?case by simp
qed

lemma set_get_queryset: "set (get_queryset s req act) \<subseteq> set (posts s)"
  by (auto simp: get_queryset_def Let_def split: option.splits)

lemma sorted_desc_sort_key:
  "sorted_wrt (\<lambda>a b. f b \<le> f a) (sort_key (\<lambda>p. - f p) xs)" for f :: "'a \<Rightarrow> int"
proof -
  have "sorted (map (\<lambda>p. - f p) (sort_key (\<lambda>p. - f p) xs))" by (rule sorted_sort_key)
  then show ?thesis by (simp add: sorted_wrt_map sorted_wrt_iff_nth_less)
qed

lemma take_top:
  assumes "sorted_wrt R xs" "q \<in> set xs" "q \<notin> set (take n xs)" "p \<in> set (take n xs)"
  shows "R p q"
proof -
  have "q \<in> set (drop n xs)"
    using assms(2,3) by (metis Un_iff append_take_drop_id set_append)
  moreover have "sorted_wrt R (take n xs @ drop n xs)" using assms(1) by simp
  ultimately show ?thesis using assms(4) unfolding sorted_wrt_append by blast
qed

subsection \<open>Likes\<close>

text \<open>
  Claim C2. For an authenticated caller \<open>u\<close> and an existing post \<open>p\<close>: when no Like row
  exists for (post, caller), \<open>like_post\<close> creates the row, increments \<open>likes_count\<close> by 1
  and answers \<open>liked\<close> with the new count; when the row exists, it deletes the row,
  decrements \<open>likes_count\<close> by 1 floored at 0 and answers \<open>unliked\<close> with the new count;
  so two consecutive calls by the same user, the first one a like, answer \<open>liked\<close> with
  \<open>n + 1\<close>, then \<open>unliked\<close> with \<open>n\<close>, and leave the post row and the Like table as they
  were (the count \<open>n\<close> being a counter, not negative).
\<close>

theorem like_post_toggle:
  assumes "post_row s pk = Some p"
  shows "((pk, u) |\<notin>| likes s \<longrightarrow>
            fst (like_post s u pk)
              = Inr \<lparr>resp_status = ''liked'', resp_likes_count = likes_count p + 1\<rparr>
          \<and> likes (snd (like_post s u pk)) = finsert (pk, u) (likes s)
          \<and> post_row (snd (like_post s u pk)) pk = Some (p\<lparr>likes_count := likes_count p + 1\<rparr>))
       \<and> ((pk, u) |\<in>| likes s \<longrightarrow>
            fst (like_post s u pk)
              = Inr \<lparr>resp_status = ''unliked'', resp_likes_count = max 0 (likes_count p - 1)\<rparr>
          \<and> likes (snd (like_post s u pk)) = likes s |-| {|(pk, u)|}
          \<and> post_row (snd (like_post s u pk)) pk
              = Some (p\<lparr>likes_count := max 0 (likes_count p - 1)\<rparr>))
       \<and> ((pk, u) |\<notin>| likes s \<and> 0 \<le> likes_count p \<longrightarrow>
            fst (like_post s u pk)
              = Inr \<lparr>resp_status = ''liked'', resp_likes_count = likes_count p + 1\<rparr>
          \<and> fst (like_post (snd (like_post s u pk)) u pk)
              = Inr \<lparr>resp_status = ''unliked'', resp_likes_count = likes_count p\<rparr>
          \<and> post_row (snd (like_post (snd (like_post s u pk)) u pk)) pk = Some p
          \<and> likes (snd (like_post (snd (like_post s u pk)) u pk)) = likes s)"
proof (intro conjI impI)
  assume n: "(pk, u) |\<notin>| likes s \<and> 0 \<le> likes_count p"
  let ?s1 = "snd (like_post s u pk)"
  let ?p1 = "p\<lparr>likes_count := likes_count p + 1\<rparr>"
  have r1: "post_row ?s1 pk = Some ?p1" and l1: "likes ?s1 = finsert (pk, u) (likes s)"
    using like_post_liked[OF assms] n by simp_all
  have in1: "(pk, u) |\<in>| likes ?s1" using l1 by simp
  show "fst (like_post ?s1 u pk) = Inr \<lparr>resp_status = ''unliked'', resp_likes_count = likes_count p\<rparr>"
    using like_post_unliked(1)[OF r1 in1] n by simp
  show "post_row (snd (like_post ?s1 u pk)) pk = Some p"
    using like_post_unliked(3)[OF r1 in1] n by simp
  show "likes (snd (like_post ?s1 u pk)) = likes s"
    using like_post_unliked(2)[OF r1 in1] l1 n by auto
qed (use like_post_liked[OF assms] like_post_unliked[OF assms] in simp_all)

theorem like_post_toggle_witness:
  "post_row ex_db 1 = Some ex_post \<and> (1, 9) |\<notin>| likes ex_db \<and> (1, 8) |\<in>| likes ex_db
   \<and> fst (like_post ex_db 9 1) = Inr \<lparr>resp_status = ''liked'', resp_likes_count = 3\<rparr>
   \<and> fst (like_post ex_db 8 1) = Inr \<lparr>resp_status = ''unliked'', resp_likes_count = 1\<rparr>
   \<and> fst (like_post (snd (like_post ex_db 9 1)) 9 1)
        = Inr \<lparr>resp_status = ''unliked'', resp_likes_count = 2\<rparr>
   \<and> post_row (snd (like_post (snd (like_post ex_db 9 1)) 9 1)) 1 = Some ex_post"
proof -
  have h: "post_row ex_db 1 = Some ex_post" by (simp add: post_row_def ex_db_def ex_post_def)
  have a: "(1, 9) |\<notin>| likes ex_db" and b: "(1, 8) |\<in>| likes ex_db" "0 \<le> likes_count ex_post"
    by (simp_all add: ex_db_def ex_post_def)
  show ?thesis
    using h a b like_post_toggle[OF h, of 9] like_post_toggle[OF h, of 8]
    by (simp add: ex_post_def)
qed

text \<open>
  Claim C3. For every post, after any finite sequence of like calls by distinct users
  that starts in a state where \<open>likes_count\<close> equals the number of Like rows of the post,
  \<open>likes_count\<close> again equals the number of Like rows of the post. (The invariant lemma
  above shows it for any sequence of callers.)
\<close>

theorem likes_count_matches_like_rows:
  assumes "post_row s pk = Some p" and "likes_count p = int (fcard (like_rows s pk))"
    and "distinct us"
  shows "\<exists>p'. post_row (like_all s pk us) pk = Some p'
             \<and> likes_count p' = int (fcard (like_rows (like_all s pk us) pk))"
  using like_all_invariant[OF assms(1,2)] .

theorem likes_count_matches_like_rows_witness:
  "post_row ex_db 1 = Some ex_post \<and> likes_count ex_post = int (fcard (like_rows ex_db 1))
   \<and> distinct [7, 9, 10 :: nat]
   \<and> (\<exists>p'. post_row (like_all ex_db 1 [7, 9, 10]) 1 = Some p'
           \<and> likes_count p' = int (fcard (like_rows (like_all ex_db 1 [7, 9, 10]) 1)))"
proof -
  have h: "post_row ex_db 1 = Some ex_post" by (simp add: post_row_def ex_db_def ex_post_def)
  have c: "likes_count ex_post = int (fcard (like_rows ex_db 1))"
    by (simp add: ex_db_def ex_post_def like_rows_def ffilter_finsert_if ffilter_fempty fcard_finsert_if)
  have d: "distinct [7, 9, 10 :: nat]" by simp
  show ?thesis
    using h c d likes_count_matches_like_rows[OF h c d] by simp
qed

subsection \<open>Listing posts\<close>

text \<open>
  Claim C1, as stated, fails: an unauthenticated caller who asks for \<^verbatim>\<open>status=draft\<close>
  is given the draft posts, because a status filter replaces the default visibility
  rule of the list action.
\<close>

theorem list_posts_draft_counterexample:
  "user draft_request = None \<and> list_posts draft_db draft_request = [draft_post]
   \<and> status draft_post = ''draft''"
  by (simp add: list_posts_def get_queryset_def draft_db_def draft_request_def api_request_def
        param_def draft_post_def ex_post_def)

text \<open>
  Claim C1, amended. For every list call by an unauthenticated caller, with any
  combination of the filters author, tag and search: when the status filter is absent
  or empty, every post of the result has status \<open>published\<close>; when a status filter is
  given, every post of the result has the status asked for.
\<close>

theorem list_posts_anonymous_status:
  assumes "user req = None"
  shows "\<forall>p \<in> set (list_posts s req).
           status p = (case param (q_status req) of None \<Rightarrow> ''published'' | Some st \<Rightarrow> st)"
  using assms
  by (auto simp: list_posts_def get_queryset_def Let_def split: option.splits)


theorem list_posts_anonymous_status_witness:
  "user (api_request None) = None
   \<and> ex_post \<in> set (list_posts draft_db (api_request None))
   \<and> draft_post \<notin> set (list_posts draft_db (api_request None))
   \<and> status ex_post = ''published''"
  using list_posts_anonymous_status[of "api_request None" draft_db]
  by (simp add: list_posts_def get_queryset_def draft_db_def api_request_def
        param_def draft_post_def ex_post_def)

subsection \<open>Trending\<close>

lemma engagement_score: "engagement p = views_count p + 2 * likes_count p"
  by (simp add: engagement_def)

text \<open>
  Claim C4. \<open>trending()\<close> returns at most 10 posts (exactly 10 when there are that many
  published posts), every returned post is a published post of the store, and the
  returned posts are in descending order of the score \<open>views_count + 2 * likes_count\<close>.
  They are the top-scoring published posts: the result, followed by the published posts
  left out, is a rearrangement of the published posts of the store (so no post is
  returned more often than the store holds it), and no post left out scores more than
  a returned post.
\<close>

theorem trending_top_ten:
  "length (PostViewSet_trending s (api_request caller)) \<le> 10
   \<and> length (PostViewSet_trending s (api_request caller))
        = min 10 (length (filter (\<lambda>p. status p = ''published'') (posts s)))
   \<and> (\<forall>p \<in> set (PostViewSet_trending s (api_request caller)).
         p \<in> set (posts s) \<and> status p = ''published'')
   \<and> sorted_wrt (\<lambda>a b. views_count b + 2 * likes_count b \<le> views_count a + 2 * likes_count a)
        (PostViewSet_trending s (api_request caller))
   \<and> (\<exists>rest.
         mset (PostViewSet_trending s (api_request caller) @ rest)
           = mset (filter (\<lambda>p. status p = ''published'') (posts s))
         \<and> (\<forall>p \<in> set (PostViewSet_trending s (api_request caller)). \<forall>q \<in> set rest.
               views_count q + 2 * likes_count q \<le> views_count p + 2 * likes_count p))
   \<and> (\<forall>q \<in> set (posts s). status q = ''published''
         \<longrightarrow> q \<notin> set (PostViewSet_trending s (api_request caller))
         \<longrightarrow> (\<forall>p \<in> set (PostViewSet_trending s (api_request caller)).
                views_count q + 2 * likes_count q \<le> views_count p + 2 * likes_count p))"
proof -
  let ?pub = "filter (\<lambda>p. status p = ''published'') (posts s)"
  let ?xs = "sort_key (\<lambda>p. - engagement p) ?pub"
  let ?score = "\<lambda>p. views_count p + 2 * likes_count p"
  have r: "PostViewSet_trending s (api_request caller) = take 10 ?xs"
    by (simp add: PostViewSet_trending_def get_queryset_api)
  have "sorted_wrt (\<lambda>a b. engagement b \<le> engagement a) ?xs"
    by (rule sorted_desc_sort_key)
  then have srt: "sorted_wrt (\<lambda>a b. ?score b \<le> ?score a) ?xs"
    by (simp only: engagement_score)
  have sub: "set (take 10 ?xs) \<subseteq> set ?pub"
    using set_take_subset[of 10 ?xs] by simp
  have 1: "length (take 10 ?xs) \<le> 10" by simp
  have 2: "length (take 10 ?xs) = min 10 (length ?pub)" by simp
  have 3: "\<forall>p \<in> set (take 10 ?xs). p \<in> set (posts s) \<and> status p = ''published''"
    using sub by auto
  have 4: "sorted_wrt (\<lambda>a b. ?score b \<le> ?score a) (take 10 ?xs)"
    using srt by (rule sorted_wrt_take)
  have "mset (take 10 ?xs @ drop 10 ?xs) = mset ?pub" by simp
  moreover have "\<forall>p \<in> set (take 10 ?xs). \<forall>q \<in> set (drop 10 ?xs). ?score q \<le> ?score p"
  proof -
    have "sorted_wrt (\<lambda>a b. ?score b \<le> ?score a) (take 10 ?xs @ drop 10 ?xs)"
      using srt by simp
    then show ?thesis unfolding sorted_wrt_append by blast
  qed
  ultimately have 5: "\<exists>rest. mset (take 10 ?xs @ rest) = mset ?pub
      \<and> (\<forall>p \<in> set (take 10 ?xs). \<forall>q \<in> set rest. ?score q \<le> ?score p)"
    by blast
  have 6: "\<forall>q \<in> set (posts s). status q = ''published'' \<longrightarrow> q \<notin> set (take 10 ?xs)
             \<longrightarrow> (\<forall>p \<in> set (take 10 ?xs). ?score q \<le> ?score p)"
  proof (intro ballI impI)
    fix q p assume "q \<in> set (posts s)" "status q = ''published''"
      and nq: "q \<notin> set (take 10 ?xs)" and p: "p \<in> set (take 10 ?xs)"
    then have "q \<in> set ?xs" by simp
    from take_top[OF srt this nq p] show "?score q \<le> ?score p" .
  qed
  show ?thesis unfolding r using 1 2 3 4 5 6 by blast
qed

text \<open>
  On the example store the post with key 1 has the fewest views and six likes: the
  weight of the likes puts it first, and the post with key 2 is the published post left
  out.
\<close>

lemma trending_many_db:
  "PostViewSet_trending many_db (api_request None)
     = map numbered_post [1, 12, 11, 10, 9, 8, 7, 6, 4, 3]"
  by (simp add: PostViewSet_trending_def get_queryset_def api_request_def param_def
        many_db_def numbered_post_def engagement_def)

theorem trending_top_ten_witness:
  "PostViewSet_trending many_db (api_request None)
     = map numbered_post [1, 12, 11, 10, 9, 8, 7, 6, 4, 3]
   \<and> length (PostViewSet_trending many_db (api_request None)) = 10
   \<and> sorted_wrt (\<lambda>a b. views_count b + 2 * likes_count b \<le> views_count a + 2 * likes_count a)
        (map numbered_post [1, 12, 11, 10, 9, 8, 7, 6, 4, 3])
   \<and> views_count (numbered_post 1) = 1 \<and> likes_count (numbered_post 1) = 6
   \<and> numbered_post 2 \<in> set (posts many_db) \<and> status (numbered_post 2) = ''published''
   \<and> numbered_post 2 \<notin> set (PostViewSet_trending many_db (api_request None))
   \<and> list_all (\<lambda>p. views_count (numbered_post 2) + 2 * likes_count (numbered_post 2)
                      \<le> views_count p + 2 * likes_count p)
        (PostViewSet_trending many_db (api_request None))"
proof -
  note T = trending_top_ten[of many_db None]
  have a: "numbered_post 2 \<in> set (posts many_db)" "status (numbered_post 2) = ''published''"
    by (simp_all add: many_db_def numbered_post_def)
  have b: "numbered_post 2 \<notin> set (PostViewSet_trending many_db (api_request None))"
    by (simp add: trending_many_db) (simp add: numbered_post_def)
  have c: "\<forall>p \<in> set (PostViewSet_trending many_db (api_request None)).
             views_count (numbered_post 2) + 2 * likes_count (numbered_post 2)
               \<le> views_count p + 2 * likes_count p"
    using T a b by blast
  have d: "sorted_wrt (\<lambda>a b. views_count b + 2 * likes_count b \<le> views_count a + 2 * likes_count a)
             (PostViewSet_trending many_db (api_request None))"
    using T by blast
  have e: "length (PostViewSet_trending many_db (api_request None)) = 10"
    by (simp add: trending_many_db)
  have f: "views_count (numbered_post 1) = 1" "likes_count (numbered_post 1) = 6"
    by (simp_all add: numbered_post_def)
  have g: "list_all (\<lambda>p. views_count (numbered_post 2) + 2 * likes_count (numbered_post 2)
                      \<le> views_count p + 2 * likes_count p)
        (PostViewSet_trending many_db (api_request None))"
    using c unfolding list_all_iff .
  show ?thesis
    using a b g d[unfolded trending_many_db] e f trending_many_db by (intro conjI)
qed

subsection \<open>Serialized comments\<close>

lemma comment_row_id: "comment_row s pk = Some c \<Longrightarrow> comment_id c = pk"
  by (auto simp: comment_row_def find_Some_iff)

lemma those_map_Some:
  "(\<And>x. x \<in> set xs \<Longrightarrow> f x \<noteq> None) \<Longrightarrow> \<exists>ys. those (map f xs) = Some ys"
  by (induction xs) (auto split: option.splits)

lemma those_map_all2:
  "those (map f xs) = Some ys \<Longrightarrow> list_all2 (\<lambda>x y. f x = Some y) xs ys"
  by (induction xs arbitrary: ys) (auto split: option.splits)

lemma serialize_comment_ok:
  "comments_ok limit s \<Longrightarrow> limit \<le> depth + comment_id obj \<Longrightarrow> comment_id obj < limit \<Longrightarrow>
   serialize_comment depth s u obj \<noteq> None"
proof (induction depth arbitrary: obj)
  case 0
  then show ?case by simp
next
  case (Suc depth)
  have "\<And>r. r \<in> set (replies_of s obj) \<Longrightarrow> serialize_comment depth s u r \<noteq> None"
  proof -
    fix r assume "r \<in> set (replies_of s obj)"
    then have r: "r \<in> set (comments s)" "comment_parent r = Some (comment_id obj)"
      by (simp_all add: replies_of_def)
    with Suc.prems(1) have "comment_id r < limit" "comment_id obj < comment_id r"
      by (auto simp: comments_ok_def)
    with Suc.prems(2) have "limit \<le> depth + comment_id r" by simp
    from Suc.IH[OF Suc.prems(1) this \<open>comment_id r < limit\<close>]
    show "serialize_comment depth s u r \<noteq> None" .
  qed
  from those_map_Some[of "replies_of s obj" "serialize_comment depth s u", OF this]
  show ?case by auto
qed

lemma serialize_comment_fields:
  "serialize_comment depth s u obj = Some j \<Longrightarrow>
   c_id j = comment_id obj \<and> c_content j = comment_content obj
   \<and> c_can_edit j = (u = Some (comment_author obj)) \<and> reply_tree s j"
proof (induction depth arbitrary: obj j)
  case 0
  then show ?case by simp
next
  case (Suc depth)
  from Suc.prems obtain rs where
    rs: "those (map (serialize_comment depth s u) (replies_of s obj)) = Some rs"
    and j: "j = CommentJson (comment_id obj) (comment_post obj) (comment_author obj)
                  (comment_content obj) (comment_parent obj) rs
                  (u = Some (comment_author obj)) (u = Some (comment_author obj))
                  (comment_likes_count obj)"
    by (auto split: option.splits)
  have all2: "list_all2 (\<lambda>x y. serialize_comment depth s u x = Some y) (replies_of s obj) rs"
    using rs by (rule those_map_all2)
  then have "list_all2 (\<lambda>x y. c_id y = comment_id x \<and> reply_tree s y) (replies_of s obj) rs"
    by (rule list_all2_mono) (use Suc.IH in blast)
  then have ids: "map c_id rs = map comment_id (replies_of s obj)"
    and tr: "\<forall>r \<in> set rs. reply_tree s r"
    by (induction rule: list_all2_induct) auto
  show ?case using j ids tr by (simp add: replies_of_def)
qed

lemma serialize_roots:
  assumes "those (map (serialize_comment depth s u) xs) = Some js"
  shows "map c_id js = map comment_id xs \<and> (\<forall>j \<in> set js. reply_tree s j)"
proof -
  have "list_all2 (\<lambda>x y. serialize_comment depth s u x = Some y) xs js"
    using assms by (rule those_map_all2)
  then have "list_all2 (\<lambda>x y. c_id y = comment_id x \<and> reply_tree s y) xs js"
    by (rule list_all2_mono) (use serialize_comment_fields in blast)
  then show ?thesis by (induction rule: list_all2_induct) auto
qed

lemma comments_update_post [simp]: "comments (update_post_row pk f s) = comments s"
  by (simp add: update_post_row_def)

lemma comments_ok_update_post [simp]:
  "comments_ok limit (update_post_row pk f s) = comments_ok limit s"
  by (simp add: comments_ok_def)

lemma top_level_update_post:
  "post_id q = post_id p \<Longrightarrow> top_level_comments (update_post_row pk f s) q = top_level_comments s p"
  by (simp add: top_level_comments_def)

lemma frame_update_post [simp]:
  "tags (update_post_row pk f s) = tags s" "post_tags (update_post_row pk f s) = post_tags s"
  by (simp_all add: update_post_row_def)

lemma get_post_state:
  assumes "post_row s pk = Some p"
  shows "snd (get_post depth s pk caller)
           = update_post_row pk (\<lambda>p. p\<lparr>views_count := views_count p + 1\<rparr>) s"
  using assms post_row_id[OF assms]
  by (simp add: get_post_def PostViewSet_retrieve_def get_object_api user_api_request
        IsAuthorOrReadOnly_def post_row_update Let_def split: option.splits)

lemma get_post_response:
  assumes "post_row s pk = Some p"
  shows "fst (get_post depth s pk caller)
           = (case serialize_post_detail depth
                     (update_post_row pk (\<lambda>p. p\<lparr>views_count := views_count p + 1\<rparr>) s)
                     caller (p\<lparr>views_count := views_count p + 1\<rparr>) of
                None \<Rightarrow> Inl RecursionError | Some data \<Rightarrow> Inr data)"
  using assms post_row_id[OF assms]
  by (simp add: get_post_def PostViewSet_retrieve_def get_object_api user_api_request
        IsAuthorOrReadOnly_def post_row_update Let_def split: option.splits)

lemma serialize_post_detail_Some:
  assumes "serialize_post_detail depth s u obj = Some data"
  shows "d_post data = obj \<and> map c_id (d_comments data) = map comment_id (top_level_comments s obj)
         \<and> (\<forall>j \<in> set (d_comments data). reply_tree s j)"
proof -
  from assms obtain cs where
    cs: "those (map (serialize_comment depth s u) (top_level_comments s obj)) = Some cs"
    and d: "d_post data = obj" "d_comments data = cs"
    by (auto simp: serialize_post_detail_def split: option.splits)
  from serialize_roots[OF cs] d show ?thesis by simp
qed

lemma serialize_post_detail_ok:
  assumes "comments_ok depth s"
  shows "\<exists>data. serialize_post_detail depth s u obj = Some data"
proof -
  have "\<And>c. c \<in> set (top_level_comments s obj) \<Longrightarrow> serialize_comment depth s u c \<noteq> None"
  proof -
    fix c assume "c \<in> set (top_level_comments s obj)"
    then have "c \<in> set (comments s)" by (simp add: top_level_comments_def)
    with assms have "comment_id c < depth" by (auto simp: comments_ok_def)
    from serialize_comment_ok[OF assms _ this] show "serialize_comment depth s u c \<noteq> None"
      by simp
  qed
  from those_map_Some[of "top_level_comments s obj" "serialize_comment depth s u", OF this]
  show ?thesis by (auto simp: serialize_post_detail_def)
qed

lemma reply_tree_cong: "comments s' = comments s \<Longrightarrow> reply_tree s' j = reply_tree s j"
  by (induction s j rule: reply_tree.induct) auto

subsection \<open>Retrieving a post\<close>

text \<open>
  Claim C9. For every existing post \<open>p\<close>, one \<open>get_post\<close> call, by any caller, authenticated
  or not, increments \<open>views_count\<close> of \<open>p\<close> by exactly 1 and changes no other field of \<open>p\<close>,
  no other post, no comment and no like; a second call increments it again (no
  deduplication of repeated views). Every detail that is returned carries the
  incremented count and the top-level comments of the post with their replies nested;
  the only other outcome is the interpreter's recursion error, which cannot occur on a
  comment table built through the API with reply chains within the recursion limit.
\<close>

theorem get_post_increments_views:
  assumes "post_row s pk = Some p"
  shows "post_row (snd (get_post depth s pk caller)) pk
           = Some (p\<lparr>views_count := views_count p + 1\<rparr>)
       \<and> (\<forall>pk'. pk' \<noteq> pk \<longrightarrow> post_row (snd (get_post depth s pk caller)) pk' = post_row s pk')
       \<and> comments (snd (get_post depth s pk caller)) = comments s
       \<and> likes (snd (get_post depth s pk caller)) = likes s
       \<and> post_row (snd (get_post depth (snd (get_post depth s pk caller)) pk caller')) pk
           = Some (p\<lparr>views_count := views_count p + 2\<rparr>)
       \<and> (\<forall>data. fst (get_post depth s pk caller) = Inr data \<longrightarrow>
             d_post data = p\<lparr>views_count := views_count p + 1\<rparr>
           \<and> map c_id (d_comments data) = map comment_id (top_level_comments s p)
           \<and> (\<forall>j \<in> set (d_comments data). reply_tree s j))
       \<and> (fst (get_post depth s pk caller) = Inl RecursionError
            \<or> (\<exists>data. fst (get_post depth s pk caller) = Inr data))
       \<and> (comments_ok depth s \<longrightarrow> (\<exists>data. fst (get_post depth s pk caller) = Inr data))"
proof -
  let ?f = "\<lambda>p. p\<lparr>views_count := views_count p + 1\<rparr>"
  let ?s1 = "update_post_row pk ?f s"
  let ?p1 = "p\<lparr>views_count := views_count p + 1\<rparr>"
  have st: "snd (get_post depth s pk caller) = ?s1" by (rule get_post_state[OF assms])
  have row1: "post_row ?s1 pk = Some ?p1" using assms by (simp add: post_row_update)
  have 1: "post_row (snd (get_post depth s pk caller)) pk = Some ?p1"
    unfolding st by (rule row1)
  have 2: "\<forall>pk'. pk' \<noteq> pk \<longrightarrow> post_row (snd (get_post depth s pk caller)) pk' = post_row s pk'"
    unfolding st by (simp add: post_row_update)
  have 3: "comments (snd (get_post depth s pk caller)) = comments s"
    "likes (snd (get_post depth s pk caller)) = likes s"
    unfolding st by simp_all
  have "post_row (snd (get_post depth ?s1 pk caller')) pk
          = Some (?p1\<lparr>views_count := views_count ?p1 + 1\<rparr>)"
    unfolding get_post_state[OF row1] by (simp add: post_row_update row1)
  then have 4: "post_row (snd (get_post depth (snd (get_post depth s pk caller)) pk caller')) pk
           = Some (p\<lparr>views_count := views_count p + 2\<rparr>)"
    unfolding st by simp
  have resp: "fst (get_post depth s pk caller)
           = (case serialize_post_detail depth ?s1 caller ?p1 of
                None \<Rightarrow> Inl RecursionError | Some data \<Rightarrow> Inr data)"
    by (rule get_post_response[OF assms])
  have 5: "\<forall>data. fst (get_post depth s pk caller) = Inr data \<longrightarrow>
             d_post data = ?p1
           \<and> map c_id (d_comments data) = map comment_id (top_level_comments s p)
           \<and> (\<forall>j \<in> set (d_comments data). reply_tree s j)"
  proof (intro allI impI)
    fix data assume "fst (get_post depth s pk caller) = Inr data"
    with resp have "serialize_post_detail depth ?s1 caller ?p1 = Some data"
      by (auto split: option.splits)
    from serialize_post_detail_Some[OF this]
    show "d_post data = ?p1
           \<and> map c_id (d_comments data) = map comment_id (top_level_comments s p)
           \<and> (\<forall>j \<in> set (d_comments data). reply_tree s j)"
      by (simp add: top_level_update_post[of ?p1 p] reply_tree_cong[of ?s1 s])
  qed
  have 6: "fst (get_post depth s pk caller) = Inl RecursionError
            \<or> (\<exists>data. fst (get_post depth s pk caller) = Inr data)"
    unfolding resp by (simp split: option.splits)
  have 7: "comments_ok depth s \<longrightarrow> (\<exists>data. fst (get_post depth s pk caller) = Inr data)"
  proof
    assume "comments_ok depth s"
    then have "comments_ok depth ?s1" by simp
    from serialize_post_detail_ok[OF this, of caller ?p1] show
      "\<exists>data. fst (get_post depth s pk caller) = Inr data"
      unfolding resp by auto
  qed
  show ?thesis using 1 2 3 4 5 6 7 by blast
qed

lemma thread_db_post: "post_row thread_db 1 = Some ex_post"
  by (simp add: post_row_def thread_db_def ex_post_def)

lemma thread_db_ok: "comments_ok 20 thread_db"
  by (simp add: comments_ok_def thread_db_def c1_def c2_def c3_def c4_def)

theorem get_post_increments_views_witness:
  "post_row thread_db 1 = Some ex_post \<and> comments_ok 20 thread_db
   \<and> post_row (snd (get_post 20 thread_db 1 None)) 1 = Some (ex_post\<lparr>views_count := 6\<rparr>)
   \<and> (\<exists>data. fst (get_post 20 thread_db 1 None) = Inr data
         \<and> d_post data = ex_post\<lparr>views_count := 6\<rparr>
         \<and> map c_id (d_comments data) = [11, 14])"
proof -
  note T = get_post_increments_views[OF thread_db_post, of 20 None None]
  from T thread_db_ok obtain data where d: "fst (get_post 20 thread_db 1 None) = Inr data"
    by blast
  have v: "ex_post\<lparr>views_count := views_count ex_post + 1\<rparr> = ex_post\<lparr>views_count := 6\<rparr>"
    by (simp add: ex_post_def)
  have t: "map comment_id (top_level_comments thread_db ex_post) = [11, 14]"
    by (simp add: top_level_comments_def thread_db_def c1_def c2_def c3_def c4_def ex_post_def)
  from T d have "d_post data = ex_post\<lparr>views_count := views_count ex_post + 1\<rparr>"
    and "map c_id (d_comments data) = map comment_id (top_level_comments thread_db ex_post)"
    by blast+
  then have "d_post data = ex_post\<lparr>views_count := 6\<rparr>" "map c_id (d_comments data) = [11, 14]"
    unfolding v t by simp_all
  moreover from T have "post_row (snd (get_post 20 thread_db 1 None)) 1
      = Some (ex_post\<lparr>views_count := 6\<rparr>)" unfolding v by blast
  ultimately show ?thesis using d thread_db_post thread_db_ok by auto
qed

subsection \<open>Updating a comment\<close>

lemma find_map_comment:
  assumes "comment_id c' = pk"
  shows "find (\<lambda>c. comment_id c = pk') (map (\<lambda>r. if comment_id r = pk then c' else r) xs)
     = (if pk' = pk then map_option (\<lambda>_. c') (find (\<lambda>c. comment_id c = pk') xs)
        else find (\<lambda>c. comment_id c = pk') xs)"
  using assms by (induction xs) auto

lemma comment_row_save:
  "comment_row (save_comment c' s) pk'
     = (if pk' = comment_id c' then map_option (\<lambda>_. c') (comment_row s pk')
        else comment_row s pk')"
  by (simp add: comment_row_def save_comment_def find_map_comment)

lemma comment_row_mem: "comment_row s pk = Some c \<Longrightarrow> c \<in> set (comments s)"
  by (auto simp: comment_row_def find_Some_iff)

lemma comments_ok_save:
  assumes "comments_ok limit s" "c \<in> set (comments s)"
  shows "comments_ok limit (save_comment (c\<lparr>comment_content := x\<rparr>) s)"
  using assms by (fastforce simp: comments_ok_def save_comment_def split: option.splits)

text \<open>
  The outcomes of an update of an existing comment \<open>c\<close> by an authenticated caller \<open>u\<close>.
  A caller other than the author is refused (HTTP 403), whatever the body. For the
  author, when the body is an object and its content is a string (the empty string when
  the key is absent): a content that is empty after trimming is refused (HTTP 400);
  otherwise the content of \<open>c\<close> is replaced by the trimmed content, every other comment
  stays as it was, and the answer is the serialized comment, or the interpreter's
  recursion error, which cannot occur on a comment table built through the API with
  reply chains within the recursion limit. When the body is not an object, or its
  content is not a string, the view raises \<^verbatim>\<open>AttributeError\<close> (HTTP 500). Every refused
  or failing update before the save leaves the store unchanged.
\<close>

lemma update_comment_not_author:
  assumes "comment_row s pk = Some c" and "u \<noteq> comment_author c"
  shows "CommentViewSet_update py depth s (Some u) pk data = (Inl PermissionDenied, s)"
  using assms by (simp add: CommentViewSet_update_def IsAuthorOrReadOnly_def)

lemma update_comment_empty:
  assumes "comment_row s pk = Some c" and "u = comment_author c"
    and "data_get data ''content'' (JString '''') = Inr (JString x)" and "strip py x = ''''"
  shows "CommentViewSet_update py depth s (Some u) pk data = (Inl ValidationError, s)"
  using assms
  by (simp add: CommentViewSet_update_def IsAuthorOrReadOnly_def value_strip_def)

lemma update_comment_not_string:
  assumes "comment_row s pk = Some c" and "u = comment_author c"
    and "data_get data ''content'' (JString '''') = Inl e
         \<or> (\<exists>v. data_get data ''content'' (JString '''') = Inr v \<and> (\<forall>x. v \<noteq> JString x))"
  shows "CommentViewSet_update py depth s (Some u) pk data = (Inl AttributeError, s)"
proof -
  from assms(3) consider
      (a) "data_get data ''content'' (JString '''') = Inl AttributeError"
    | (b) v where "data_get data ''content'' (JString '''') = Inr v" "\<forall>x. v \<noteq> JString x"
    by (auto simp: data_get_def split: json.splits)
  then show ?thesis
  proof cases
    case a
    then show ?thesis
      using assms(1,2) by (simp add: CommentViewSet_update_def IsAuthorOrReadOnly_def)
  next
    case b
    from b(2) have "value_strip py v = Inl AttributeError"
      by (cases v) (simp_all add: value_strip_def)
    then show ?thesis
      using assms(1,2) b(1) by (simp add: CommentViewSet_update_def IsAuthorOrReadOnly_def)
  qed
qed

lemma update_comment_replaces:
  assumes "comment_row s pk = Some c" and "u = comment_author c"
    and "data_get data ''content'' (JString '''') = Inr (JString x)" and "strip py x \<noteq> ''''"
  shows "comment_row (snd (CommentViewSet_update py depth s (Some u) pk data)) pk
           = Some (c\<lparr>comment_content := strip py x\<rparr>)"
    and "\<forall>pk'. pk' \<noteq> pk \<longrightarrow>
           comment_row (snd (CommentViewSet_update py depth s (Some u) pk data)) pk'
             = comment_row s pk'"
    and "fst (CommentViewSet_update py depth s (Some u) pk data) = Inl RecursionError
         \<or> (\<exists>j. fst (CommentViewSet_update py depth s (Some u) pk data) = Inr j)"
    and "\<forall>j. fst (CommentViewSet_update py depth s (Some u) pk data) = Inr j \<longrightarrow>
           c_id j = pk \<and> c_content j = strip py x"
    and "comments_ok depth s \<longrightarrow>
           (\<exists>j. fst (CommentViewSet_update py depth s (Some u) pk data) = Inr j)"
proof -
  let ?c = "c\<lparr>comment_content := strip py x\<rparr>"
  let ?s1 = "save_comment ?c s"
  let ?R = "CommentViewSet_update py depth s (Some u) pk data"
  have id: "comment_id c = pk" by (rule comment_row_id[OF assms(1)])
  have st: "snd ?R = ?s1"
    using assms by (simp add: CommentViewSet_update_def IsAuthorOrReadOnly_def Let_def
        value_strip_def split: option.splits)
  have resp: "fst ?R = (case serialize_comment depth ?s1 (Some u) ?c of
                          None \<Rightarrow> Inl RecursionError | Some j \<Rightarrow> Inr j)"
    using assms by (simp add: CommentViewSet_update_def IsAuthorOrReadOnly_def Let_def
        value_strip_def split: option.splits)
  show "comment_row (snd ?R) pk = Some ?c"
    unfolding st using assms(1) id by (simp add: comment_row_save)
  show "\<forall>pk'. pk' \<noteq> pk \<longrightarrow> comment_row (snd ?R) pk' = comment_row s pk'"
    unfolding st using id by (simp add: comment_row_save)
  show "fst ?R = Inl RecursionError \<or> (\<exists>j. fst ?R = Inr j)"
    unfolding resp by (simp split: option.splits)
  show "\<forall>j. fst ?R = Inr j \<longrightarrow> c_id j = pk \<and> c_content j = strip py x"
  proof (intro allI impI)
    fix j assume "fst ?R = Inr j"
    with resp have "serialize_comment depth ?s1 (Some u) ?c = Some j"
      by (auto split: option.splits)
    from serialize_comment_fields[OF this] id show "c_id j = pk \<and> c_content j = strip py x"
      by simp
  qed
  show "comments_ok depth s \<longrightarrow> (\<exists>j. fst ?R = Inr j)"
  proof
    assume ok: "comments_ok depth s"
    have mem: "c \<in> set (comments s)" by (rule comment_row_mem[OF assms(1)])
    have ok1: "comments_ok depth ?s1" by (rule comments_ok_save[OF ok mem])
    have lt: "comment_id ?c < depth" using ok mem by (auto simp: comments_ok_def)
    have "serialize_comment depth ?s1 (Some u) ?c \<noteq> None"
      by (rule serialize_comment_ok[OF ok1 _ lt]) simp
    then show "\<exists>j. fst ?R = Inr j" unfolding resp by auto
  qed
qed

lemma thread_db_row2: "comment_row thread_db 12 = Some c2"
  by (simp add: comment_row_def thread_db_def c1_def c2_def)

text \<open>
  On the example store the comment with key 12 is by user 8. User 7 is refused; the
  author is refused a content of blanks; the author's content \<^verbatim>\<open>" Edited "\<close> is stored
  trimmed and returned.
\<close>

lemma update_comment_example:
  "CommentViewSet_update ascii_str 20 thread_db (Some 7) 12 (JObject [(''content'', JString ''Edited'')])
       = (Inl PermissionDenied, thread_db)
   \<and> CommentViewSet_update ascii_str 20 thread_db (Some 8) 12 (JObject [(''content'', JString ''   '')])
       = (Inl ValidationError, thread_db)
   \<and> CommentViewSet_update ascii_str 20 thread_db (Some 8) 12 (JObject [])
       = (Inl ValidationError, thread_db)
   \<and> comment_row (snd (CommentViewSet_update ascii_str 20 thread_db (Some 8) 12
                         (JObject [(''content'', JString '' Edited '')]))) 12
       = Some (c2\<lparr>comment_content := ''Edited''\<rparr>)
   \<and> (\<exists>j. fst (CommentViewSet_update ascii_str 20 thread_db (Some 8) 12
                  (JObject [(''content'', JString '' Edited '')])) = Inr j
          \<and> c_content j = ''Edited'')"
proof -
  have a: "7 \<noteq> comment_author c2" "8 = comment_author c2" by (simp_all add: c2_def)
  have g: "data_get (JObject [(''content'', JString ''   '')]) ''content'' (JString '''')
             = Inr (JString ''   '')"
    "data_get (JObject []) ''content'' (JString '''') = Inr (JString '''')"
    "data_get (JObject [(''content'', JString '' Edited '')]) ''content'' (JString '''')
             = Inr (JString '' Edited '')"
    by (simp_all add: data_get_def)
  have b: "strip ascii_str ''   '' = ''''" "strip ascii_str '''' = ''''"
    "strip ascii_str '' Edited '' = ''Edited''"
    by (simp_all add: ascii_str_def ascii_strip_def ascii_isspace_def)
  have ne: "strip ascii_str '' Edited '' \<noteq> ''''" unfolding b(3) by simp
  note R = update_comment_replaces[OF thread_db_row2 a(2) g(3) ne, of 20]
  from R(5) thread_db_ok obtain j where
    j: "fst (CommentViewSet_update ascii_str 20 thread_db (Some 8) 12
               (JObject [(''content'', JString '' Edited '')])) = Inr j" by blast
  with R(4) have "c_content j = ''Edited''" unfolding b(3) by blast
  with j have 5: "\<exists>j. fst (CommentViewSet_update ascii_str 20 thread_db (Some 8) 12
                  (JObject [(''content'', JString '' Edited '')])) = Inr j
          \<and> c_content j = ''Edited''" by blast
  show ?thesis
    using update_comment_not_author[OF thread_db_row2 a(1)]
      update_comment_empty[OF thread_db_row2 a(2) g(1) b(1)]
      update_comment_empty[OF thread_db_row2 a(2) g(2) b(2)]
      R(1)[unfolded b(3)] 5
    by simp
qed

text \<open>
  Claim C5 says that an update by the author of an existing comment fails with a
  validation error (HTTP 400) when the supplied content is empty after trimming, and
  otherwise replaces the content and succeeds. On a body whose content is not a string
  the view does neither. Here the author, user 8, sends \<^verbatim>\<open>{"content": null}\<close> for the
  comment with key 12: the view calls \<^verbatim>\<open>strip\<close> on \<^verbatim>\<open>None\<close>, the request ends with
  \<^verbatim>\<open>AttributeError\<close> (HTTP 500), and the comment keeps its content. The views that create
  a comment validate the content with the serializer and answer 400 to the same body.
\<close>

theorem update_comment_null_content:
  "comment_row thread_db 12 = Some c2 \<and> comment_author c2 = 8
   \<and> CommentViewSet_update ascii_str 20 thread_db (Some 8) 12 (JObject [(''content'', JNull)])
       = (Inl AttributeError, thread_db)
   \<and> http_status AttributeError = 500"
proof -
  have a: "8 = comment_author c2" by (simp add: c2_def)
  have g: "data_get (JObject [(''content'', JNull)]) ''content'' (JString '''') = Inl e
         \<or> (\<exists>v. data_get (JObject [(''content'', JNull)]) ''content'' (JString '''') = Inr v
                \<and> (\<forall>x. v \<noteq> JString x))"
    for e by (simp add: data_get_def)
  show ?thesis
    using thread_db_row2 a update_comment_not_string[OF thread_db_row2 a g]
    by (simp add: http_status_def)
qed

subsection \<open>Deleting a comment\<close>

lemma collect_sound:
  "x \<in> set (collect cs todo seen) \<Longrightarrow>
   x \<in> set seen \<or> (\<exists>t \<in> set todo. (x, t) \<in> (reply_rel cs)\<^sup>*)"
proof (induction cs todo seen rule: collect.induct)
  case (1 cs seen)
  then show ?case by simp
next
  case (2 cs y todo seen)
  show ?case
  proof (cases "y \<in> set seen")
    case True
    with 2 show ?thesis by auto
  next
    case False
    let ?ch = "map comment_id (filter (\<lambda>c. comment_parent c = Some y) cs)"
    from 2(2,3) False have "x \<in> set (y # seen) \<or> (\<exists>t \<in> set (?ch @ todo). (x, t) \<in> (reply_rel cs)\<^sup>*)"
      by simp
    then consider "x = y" | "x \<in> set seen" | t where "t \<in> set ?ch" "(x, t) \<in> (reply_rel cs)\<^sup>*"
      | t where "t \<in> set todo" "(x, t) \<in> (reply_rel cs)\<^sup>*" by auto
    then show ?thesis
    proof cases
      case 1
      then show ?thesis by auto
    next
      case 2
      then show ?thesis by simp
    next
      case 3
      from 3(1) have "(t, y) \<in> reply_rel cs" by (auto simp: reply_rel_def)
      with 3(2) have "(x, y) \<in> (reply_rel cs)\<^sup>*" by (rule rtrancl_into_rtrancl)
      then show ?thesis by auto
    next
      case 4
      then show ?thesis by auto
    qed
  qed
qed

lemma collect_closed:
  assumes "\<forall>y \<in> set seen. \<forall>z. (z, y) \<in> reply_rel cs \<longrightarrow> z \<in> set seen \<union> set todo"
  shows "set seen \<union> set todo \<subseteq> set (collect cs todo seen)
         \<and> (\<forall>y \<in> set (collect cs todo seen). \<forall>z. (z, y) \<in> reply_rel cs
               \<longrightarrow> z \<in> set (collect cs todo seen))"
  using assms
proof (induction cs todo seen rule: collect.induct)
  case (1 cs seen)
  then show ?case by simp
next
  case (2 cs y todo seen)
  show ?case
  proof (cases "y \<in> set seen")
    case True
    have "\<forall>w \<in> set seen. \<forall>z. (z, w) \<in> reply_rel cs \<longrightarrow> z \<in> set seen \<union> set todo"
      using 2(3) True by auto
    from 2(1)[OF True this] True show ?thesis by auto
  next
    case False
    let ?ch = "map comment_id (filter (\<lambda>c. comment_parent c = Some y) cs)"
    have ch: "\<And>z. (z, y) \<in> reply_rel cs \<Longrightarrow> z \<in> set ?ch"
      by (auto simp: reply_rel_def)
    have "\<forall>w \<in> set (y # seen). \<forall>z. (z, w) \<in> reply_rel cs
            \<longrightarrow> z \<in> set (y # seen) \<union> set (?ch @ todo)"
      using 2(3) ch by auto
    from 2(2)[OF False this] False show ?thesis by auto
  qed
qed

lemma collect_descendants:
  "set (collect cs [pk] []) = {d. (d, pk) \<in> (reply_rel cs)\<^sup>*}"
proof (intro equalityI subsetI)
  fix x assume "x \<in> set (collect cs [pk] [])"
  from collect_sound[OF this] show "x \<in> {d. (d, pk) \<in> (reply_rel cs)\<^sup>*}" by simp
next
  fix x assume "x \<in> {d. (d, pk) \<in> (reply_rel cs)\<^sup>*}"
  then have r: "(x, pk) \<in> (reply_rel cs)\<^sup>*" by simp
  have cl: "pk \<in> set (collect cs [pk] [])"
    "\<And>y z. y \<in> set (collect cs [pk] []) \<Longrightarrow> (z, y) \<in> reply_rel cs
       \<Longrightarrow> z \<in> set (collect cs [pk] [])"
    using collect_closed[of "[]" cs "[pk]"] by auto
  from r show "x \<in> set (collect cs [pk] [])"
  proof (induction rule: converse_rtrancl_induct)
    case base
    then show ?case by (rule cl(1))
  next
    case (step a b)
    then show ?case using cl(2) by blast
  qed
qed

lemma comments_delete_comment:
  "comments (delete_comment c s)
     = filter (\<lambda>r. (comment_id r, comment_id c) \<notin> (reply_rel (comments s))\<^sup>*) (comments s)"
  unfolding delete_comment_def collect_descendants by simp

lemma frame_delete_comment:
  "posts (delete_comment c s) = posts s" "likes (delete_comment c s) = likes s"
  by (simp_all add: delete_comment_def)

text \<open>
  Claim C6. For every existing comment \<open>c\<close>, the deletion fails with a permission error
  when the caller is not the author of \<open>c\<close>, and leaves the store unchanged; for the
  author it succeeds and removes \<open>c\<close> together with every descendant reply of \<open>c\<close>,
  transitively through the parent relation, and nothing else: the comments that remain
  are exactly those from which no chain of parent links leads to \<open>c\<close>.
\<close>

theorem delete_comment_cascade:
  assumes "comment_row s pk = Some c"
  shows "(u \<noteq> comment_author c \<longrightarrow>
            CommentViewSet_destroy s (Some u) pk = (Inl PermissionDenied, s))
       \<and> (u = comment_author c \<longrightarrow>
            fst (CommentViewSet_destroy s (Some u) pk) = Inr ()
          \<and> comments (snd (CommentViewSet_destroy s (Some u) pk))
              = filter (\<lambda>r. (comment_id r, pk) \<notin> (reply_rel (comments s))\<^sup>*) (comments s)
          \<and> posts (snd (CommentViewSet_destroy s (Some u) pk)) = posts s
          \<and> likes (snd (CommentViewSet_destroy s (Some u) pk)) = likes s)"
  using assms comment_row_id[OF assms]
  by (auto simp: CommentViewSet_destroy_def IsAuthorOrReadOnly_def comments_delete_comment
        frame_delete_comment)

lemma thread_db_row: "comment_row thread_db 11 = Some c1"
  by (simp add: comment_row_def thread_db_def c1_def)

theorem delete_comment_cascade_witness:
  "comment_row thread_db 11 = Some c1 \<and> 8 \<noteq> comment_author c1 \<and> 7 = comment_author c1
   \<and> CommentViewSet_destroy thread_db (Some 8) 11 = (Inl PermissionDenied, thread_db)
   \<and> fst (CommentViewSet_destroy thread_db (Some 7) 11) = Inr ()
   \<and> comments (snd (CommentViewSet_destroy thread_db (Some 7) 11)) = [c4]"
proof -
  have a: "8 \<noteq> comment_author c1" "7 = comment_author c1" by (simp_all add: c1_def)
  have d: "comments (snd (CommentViewSet_destroy thread_db (Some 7) 11)) = [c4]"
    by (simp add: CommentViewSet_destroy_def IsAuthorOrReadOnly_def delete_comment_def
          thread_db_row a(2)[symmetric])
       (simp add: thread_db_def c1_def c2_def c3_def c4_def)
  show ?thesis
    using thread_db_row a d delete_comment_cascade[OF thread_db_row, of 8]
      delete_comment_cascade[OF thread_db_row, of 7]
    by simp
qed

subsection \<open>Updating the tags of a post\<close>







lemma tags_add_frame [simp]:
  "tags (tags_add pid t s) = tags s" "posts (tags_add pid t s) = posts s"
  by (simp_all add: tags_add_def)


lemma tags_ok_tags_add [simp]: "tags_ok (tags_add pid t s) = tags_ok s"
  by (simp add: tags_ok_def)




lemma post_id_set_fields [simp]: "post_id (set_fields vd p) = post_id p"
  by (simp add: set_fields_def)








text \<open>
  When every new tag is given the same slug, the second new tag is refused: the update
  of the same post with the names \<^verbatim>\<open>"Flask"\<close> and \<^verbatim>\<open>"REST"\<close> ends with the store's
  \<^verbatim>\<open>IntegrityError\<close>, after the tags of the post were cleared and the first tag added.
\<close>

lemma update_post_slug_collision:
  "fst (PostCreateUpdateSerializer_update ascii_str (\<lambda>n. ''tag'') tagged_db ex_post
          (new_tags\<lparr>v_tags := Some [''Flask'', ''REST'']\<rparr>)) = Inl IntegrityError
   \<and> post_tags (snd (PostCreateUpdateSerializer_update ascii_str (\<lambda>n. ''tag'') tagged_db ex_post
          (new_tags\<lparr>v_tags := Some [''Flask'', ''REST'']\<rparr>))) = [(1, 23)]"
  by (simp add: PostCreateUpdateSerializer_update_def Let_def new_tags_def set_fields_def
        save_post_def tags_clear_def tagged_db_def get_or_create_tag_def tags_add_def
        tag_python_def tag_django_def ascii_str_def ascii_strip_def ascii_isspace_def
        ascii_lower_def ascii_lower_char_def ex_post_def)

subsection \<open>Registration\<close>

text \<open>
  What \<open>register\<close> does. It fails with a validation error when the email, as it was
  submitted, is the email of a user, and when the password differs from its
  confirmation. Every failure leaves the store unchanged, so no user row is created; a
  failure is a validation error or the store's refusal of a username whose normal form
  is in use. On success the returned fields are the username and the email of the row
  that was created, never the password fields, and one user row is added: it holds the
  username in normal form, the normalized email and the hash of the password.
  Registration succeeds whenever no field is in error, the password equals its
  confirmation and the normal form of the username is not in use.
\<close>

lemma register_outcomes:
  "((\<exists>u \<in> set (users s). email u = r_email data) \<longrightarrow>
      register py cfg s data = (Inl ValidationError, s))
   \<and> (r_password data \<noteq> r_password2 data \<longrightarrow>
        register py cfg s data = (Inl ValidationError, s))
   \<and> (\<forall>e. fst (register py cfg s data) = Inl e \<longrightarrow>
          (e = ValidationError \<or> e = IntegrityError) \<and> snd (register py cfg s data) = s)
   \<and> (\<forall>resp. fst (register py cfg s data) = Inr resp \<longrightarrow>
          resp = [(''username'', nfkc py (r_username data)),
                  (''email'', normalize_email py (r_email data))]
        \<and> ''password'' \<notin> fst ` set resp \<and> ''password2'' \<notin> fst ` set resp
        \<and> (\<exists>u. users (snd (register py cfg s data)) = users s @ [u]
               \<and> username u = nfkc py (r_username data)
               \<and> email u = normalize_email py (r_email data)
               \<and> password u = make_password cfg (r_password data)))
   \<and> (field_errors cfg s data = [] \<and> r_password data = r_password2 data
        \<and> (\<forall>u \<in> set (users s). username u \<noteq> nfkc py (r_username data)) \<longrightarrow>
          (\<exists>resp. fst (register py cfg s data) = Inr resp))"
proof (intro conjI impI allI)
  assume "\<exists>u \<in> set (users s). email u = r_email data"
  then have "field_errors cfg s data \<noteq> []" by (simp add: field_errors_def)
  then show "register py cfg s data = (Inl ValidationError, s)" by (simp add: register_def)
next
  assume "r_password data \<noteq> r_password2 data"
  then show "register py cfg s data = (Inl ValidationError, s)"
    by (simp add: register_def RegisterSerializer_validate_def)
next
  fix e assume "fst (register py cfg s data) = Inl e"
  then show "e = ValidationError \<or> e = IntegrityError" "snd (register py cfg s data) = s"
    by (auto simp: register_def RegisterSerializer_validate_def RegisterSerializer_create_def
          Let_def split: if_splits)
next
  fix resp assume r: "fst (register py cfg s data) = Inr resp"
  let ?u = "\<lparr>user_id = Suc (fold max (map user_id (users s)) 0),
             username = nfkc py (r_username data),
             email = normalize_email py (r_email data),
             password = make_password cfg (r_password data)\<rparr>"
  from r have reg: "register py cfg s data
      = (Inr (to_representation ?u), create_user_profile ?u (s\<lparr>users := users s @ [?u]\<rparr>))"
    by (auto simp: register_def RegisterSerializer_validate_def RegisterSerializer_create_def
          Let_def split: if_splits)
  have rep: "to_representation ?u
      = [(''username'', nfkc py (r_username data)),
         (''email'', normalize_email py (r_email data))]"
    by (simp add: to_representation_def RegisterSerializer_fields_def write_only_def
          field_value_def)
  from r reg rep show "resp = [(''username'', nfkc py (r_username data)),
                  (''email'', normalize_email py (r_email data))]"
    by simp
  then show "''password'' \<notin> fst ` set resp" "''password2'' \<notin> fst ` set resp" by simp_all
  show "\<exists>u. users (snd (register py cfg s data)) = users s @ [u]
               \<and> username u = nfkc py (r_username data)
               \<and> email u = normalize_email py (r_email data)
               \<and> password u = make_password cfg (r_password data)"
    unfolding reg by (simp add: create_user_profile_def)
next
  assume "field_errors cfg s data = [] \<and> r_password data = r_password2 data
        \<and> (\<forall>u \<in> set (users s). username u \<noteq> nfkc py (r_username data))"
  then show "\<exists>resp. fst (register py cfg s data) = Inr resp"
    by (simp add: register_def RegisterSerializer_validate_def RegisterSerializer_create_def
          Let_def)
qed

text \<open>
  On the example store, which holds alice and bob: a registration with alice's email is
  refused, a registration with a confirmation that differs is refused, and on an empty
  store alice is registered and her username and email are returned.
\<close>

lemma register_example:
  "(\<exists>u \<in> set (users accounts). email u = r_email carol_data)
   \<and> register ascii_str example_config accounts carol_data = (Inl ValidationError, accounts)
   \<and> r_password dave_data \<noteq> r_password2 dave_data
   \<and> register ascii_str example_config accounts dave_data = (Inl ValidationError, accounts)
   \<and> fst (register ascii_str example_config empty_accounts alice_data)
        = Inr [(''username'', ''alice''), (''email'', ''a@x.com'')]"
proof -
  have a: "\<exists>u \<in> set (users accounts). email u = r_email carol_data"
    by (simp add: accounts_def alice_def carol_data_def)
  have b: "r_password dave_data \<noteq> r_password2 dave_data" by (simp add: dave_data_def)
  have c: "field_errors example_config empty_accounts alice_data = []"
    "r_password alice_data = r_password2 alice_data"
    "\<forall>u \<in> set (users empty_accounts). username u \<noteq> nfkc ascii_str (r_username alice_data)"
    by (simp_all add: field_errors_def example_config_def empty_accounts_def alice_data_def)
  have n: "nfkc ascii_str (r_username alice_data) = ''alice''"
    "normalize_email ascii_str (r_email alice_data) = ''a@x.com''"
    by (simp_all add: alice_data_def normalize_email_def ascii_str_def ascii_strip_def
          ascii_isspace_def ascii_lower_def ascii_lower_char_def Let_def)
  note T1 = register_outcomes[where s = accounts and data = carol_data and py = ascii_str
      and cfg = example_config]
  note T2 = register_outcomes[where s = accounts and data = dave_data and py = ascii_str
      and cfg = example_config]
  note T3 = register_outcomes[where s = empty_accounts and data = alice_data and py = ascii_str
      and cfg = example_config]
  from T1 a have 1: "register ascii_str example_config accounts carol_data
      = (Inl ValidationError, accounts)"
    by blast
  from T2 b have 2: "register ascii_str example_config accounts dave_data
      = (Inl ValidationError, accounts)"
    by blast
  from T3 c obtain resp where
    r: "fst (register ascii_str example_config empty_accounts alice_data) = Inr resp"
    by blast
  with T3 have "resp = [(''username'', nfkc ascii_str (r_username alice_data)),
                        (''email'', normalize_email ascii_str (r_email alice_data))]"
    by blast
  with r have 3: "fst (register ascii_str example_config empty_accounts alice_data)
        = Inr [(''username'', ''alice''), (''email'', ''a@x.com'')]"
    unfolding n by simp
  show ?thesis using a b 1 2 3 by (intro conjI)
qed

text \<open>
  Claim C7 says that \<open>register\<close> fails with a validation error when the email is already
  in use, and that no user row is created then. The uniqueness check compares the email
  as it was submitted, while \<^verbatim>\<open>create_user\<close> stores the normalized email. Here alice
  holds the address \<^verbatim>\<open>a@x.com\<close> and eve registers with \<^verbatim>\<open>a@X.COM\<close>, the same address with
  the domain in capitals: the check passes, the registration succeeds, and a second
  user row with the email \<^verbatim>\<open>a@x.com\<close> is created and returned.
\<close>

theorem register_email_domain_case:
  "alice \<in> set (users accounts) \<and> email alice = ''a@x.com''
   \<and> r_email eve_data = ''a@X.COM''
   \<and> normalize_email ascii_str (r_email eve_data) = email alice
   \<and> fst (register ascii_str example_config accounts eve_data)
        = Inr [(''username'', ''eve''), (''email'', ''a@x.com'')]
   \<and> map email (users (snd (register ascii_str example_config accounts eve_data)))
        = [''a@x.com'', ''b@x.com'', ''a@x.com'']"
  by (simp add: register_def field_errors_def RegisterSerializer_validate_def
        RegisterSerializer_create_def create_user_profile_def to_representation_def
        RegisterSerializer_fields_def write_only_def field_value_def
        normalize_email_def example_config_def accounts_def alice_def bob_def eve_data_def
        ascii_str_def ascii_strip_def ascii_isspace_def ascii_lower_def ascii_lower_char_def
        Let_def)

subsection \<open>Updating a profile\<close>

lemma users_save_profile [simp]: "users (save_profile p s) = users s"
  by (simp add: save_profile_def)

text \<open>
  Claim C10. For every authenticated caller (a user with a profile), an update whose
  username field equals the caller's own current username succeeds without the
  validation error of a taken username, and leaves the usernames unchanged. The check
  is applied only when the requested username differs from the caller's own: the update
  fails with the validation error exactly when a username is given that is non-empty,
  differs from the caller's own and is in use; a failing update writes nothing.
\<close>

theorem update_profile_own_username:
  assumes "find (\<lambda>r. user_id r = uid) (users s) = Some u"
    and "find (\<lambda>p. profile_user p = uid) (profiles s) = Some instance"
  shows "(p_username vd = Some (username u) \<longrightarrow>
            (\<exists>resp. fst (update_profile s (Some uid) vd) = Inr resp
                   \<and> out_username resp = username u)
          \<and> users (snd (update_profile s (Some uid) vd)) = users s)
       \<and> (fst (update_profile s (Some uid) vd) = Inl ValidationError \<longleftrightarrow>
            (\<exists>name. p_username vd = Some name \<and> name \<noteq> '''' \<and> name \<noteq> username u
                   \<and> (\<exists>r \<in> set (users s). username r = name)))
       \<and> (\<forall>e. fst (update_profile s (Some uid) vd) = Inl e \<longrightarrow>
              e = ValidationError \<and> snd (update_profile s (Some uid) vd) = s)"
proof (intro conjI impI allI)
  assume "p_username vd = Some (username u)"
  then show "\<exists>resp. fst (update_profile s (Some uid) vd) = Inr resp
                   \<and> out_username resp = username u"
    and "users (snd (update_profile s (Some uid) vd)) = users s"
    using assms
    by (simp_all add: update_profile_def UpdateUserProfileSerializer_update_def Let_def)
next
  show "fst (update_profile s (Some uid) vd) = Inl ValidationError \<longleftrightarrow>
            (\<exists>name. p_username vd = Some name \<and> name \<noteq> '''' \<and> name \<noteq> username u
                   \<and> (\<exists>r \<in> set (users s). username r = name))"
    using assms
    by (cases "p_username vd")
       (auto simp: update_profile_def UpdateUserProfileSerializer_update_def Let_def)
next
  fix e assume "fst (update_profile s (Some uid) vd) = Inl e"
  then show "e = ValidationError" "snd (update_profile s (Some uid) vd) = s"
    using assms
    by (cases "p_username vd";
        auto simp: update_profile_def UpdateUserProfileSerializer_update_def Let_def
          split: if_splits)+
qed

lemma accounts_alice:
  "find (\<lambda>r. user_id r = 31) (users accounts) = Some alice"
  "find (\<lambda>p. profile_user p = 31) (profiles accounts) = Some alice_profile"
  by (simp_all add: accounts_def alice_def alice_profile_def)

theorem update_profile_own_username_witness:
  "find (\<lambda>r. user_id r = 31) (users accounts) = Some alice
   \<and> find (\<lambda>p. profile_user p = 31) (profiles accounts) = Some alice_profile
   \<and> p_username same_name = Some (username alice)
   \<and> (\<exists>resp. fst (update_profile accounts (Some 31) same_name) = Inr resp
          \<and> out_username resp = ''alice'')
   \<and> users (snd (update_profile accounts (Some 31) same_name)) = users accounts
   \<and> p_username taken_name = Some ''bob'' \<and> ''bob'' \<noteq> username alice
   \<and> (\<exists>r \<in> set (users accounts). username r = ''bob'')
   \<and> fst (update_profile accounts (Some 31) taken_name) = Inl ValidationError"
proof -
  have a: "p_username same_name = Some (username alice)"
    by (simp add: same_name_def alice_def)
  have b: "p_username taken_name = Some ''bob''" "''bob'' \<noteq> username alice"
    "\<exists>r \<in> set (users accounts). username r = ''bob''"
    by (simp_all add: taken_name_def alice_def accounts_def bob_def)
  note T1 = update_profile_own_username[OF accounts_alice, of same_name]
  note T2 = update_profile_own_username[OF accounts_alice, of taken_name]
  from T1 a have 1: "\<exists>resp. fst (update_profile accounts (Some 31) same_name) = Inr resp
          \<and> out_username resp = username alice"
    and 2: "users (snd (update_profile accounts (Some 31) same_name)) = users accounts"
    by blast+
  have 3: "fst (update_profile accounts (Some 31) taken_name) = Inl ValidationError"
    using T2 b by auto
  have n: "username alice = ''alice''" by (simp add: alice_def)
  show ?thesis using accounts_alice a b 1[unfolded n] 2 3 by auto
qed

end
